theory Spec2Isabelle
  imports Main "HOL-Library.Sublist"
begin

section \<open>Common Python notions\<close>

text \<open>
  The sources are Python 2. A changeset node is a byte string; Python's truth test on a
  string or on \<open>None\<close> is written out, as are the \<open>%d\<close> conversion and the
  exceptions the commands raise.
\<close>

type_synonym node = string

datatype pyval = PyNone | PyBool bool | PyInt int

text \<open>
  \<open>args[0]\<close> of an exception: \<open>args\<close> may be empty, and its first element
  an integer or something else.
\<close>

datatype io_arg = ArgsEmpty | ArgInt int | ArgOther

text \<open>
  An \<open>IOError\<close> as the dispatcher inspects it: whether it has a \<open>code\<close>
  attribute (an HTTP error), the text of its \<open>reason\<close> (that of
  \<open>reason.args[1]\<close> when there is one, of the reason itself otherwise),
  \<open>args[0]\<close>, \<open>strerror\<close>, \<open>filename\<close> and \<open>str(inst)\<close>.
  Under the Python 2.6 of the repository \<open>socket.error\<close> is a subclass of
  \<open>IOError\<close>, so a socket error is an \<open>IOError\<close> here as well.
\<close>

record ioerror =
  io_code :: bool
  io_reason :: "string option"
  io_args0 :: io_arg
  io_strerror :: "string option"
  io_filename :: "string option"
  io_str :: string

text \<open>The second argument of a \<open>ResponseError\<close>: a string, or an object shown by \<open>%r\<close>.\<close>

datatype resp_arg = RespStr string | RespObj string

text \<open>
  The exceptions of the sources. \<open>Abort\<close> carries its message and its hint,
  \<open>LockHeld\<close> its errno, file name, description and locker, \<open>LockUnavailable\<close>
  its file name, description and strerror, \<open>ParseError\<close> its message and the
  optional location, \<open>CommandError\<close> the command (or \<open>None\<close>) and the message.
\<close>

datatype exn =
    Abort string "string option"
  | AmbiguousCommand string "string list"
  | ParseError string "string option"
  | LockHeld int string "string option" string
  | LockUnavailable string "string option" string
  | CommandError "string option" string
  | RepoError string
  | ResponseError string resp_arg
  | RevlogError string
  | SignalInterrupt
  | UnknownCommand string
  | ImportError string
  | IOError ioerror
  | OSError string "string option"
  | KeyboardInterrupt
  | MemoryError
  | SystemExit pyval
  | ValueError
  | IndexError
  | OtherException string

definition truthy :: "string option \<Rightarrow> bool" where
  "truthy v = (case v of None \<Rightarrow> False | Some s \<Rightarrow> s \<noteq> [])"

definition quote :: string where
  "quote = [CHR 0x27]"

definition newline :: string where
  "newline = [CHR 0x0A]"

definition digit :: "nat \<Rightarrow> char" where
  "digit d = ''0123456789'' ! d"

function str_nat :: "nat \<Rightarrow> string" where
  "str_nat n = (if n < 10 then [digit n] else str_nat (n div 10) @ [digit (n mod 10)])"
  by pat_completeness auto
termination
  by (relation "measure (\<lambda>n. n)") auto

declare str_nat.simps [simp del]

text \<open>
  \<open>list(set(xs))\<close> and the iteration over a set: the elements of \<open>xs\<close> once each,
  in an order that the hashing of Python decides. The ranking \<open>rank\<close> stands for
  that order; every order of the elements is that of some ranking.
\<close>

definition set_list :: "('a \<Rightarrow> nat) \<Rightarrow> 'a list \<Rightarrow> 'a list" where
  "set_list rank xs = sort_key rank (remdups xs)"

section \<open>commands.merge: choosing the revision to merge with\<close>

text \<open>
  What \<open>merge\<close> reads from the repository before it calls \<open>hg.merge\<close>:
  the branch of the working directory, the heads of a branch, the parents of the
  dirstate, the repository heads and the node a branch name looks up to.
\<close>

record merge_repo =
  wbranch :: string
  branchheads :: "string \<Rightarrow> node list"
  dirstate_parents :: "node \<times> node"
  repo_heads :: "node list"
  lookup_branch :: "string \<Rightarrow> node"

record merge_opts =
  opt_rev :: "string option"
  opt_preview :: bool
  opt_force :: bool

text \<open>
  The two ways the command goes on once a target is known: the preview listing, or the
  call of \<open>hg.merge(repo, node, force)\<close>.
\<close>

datatype merge_action =
    ShowPreview node
  | HgMerge node bool

fun target :: "merge_action \<Rightarrow> node" where
  "target (ShowPreview n) = n"
| "target (HgMerge n f) = n"

definition msg_many_heads :: "string \<Rightarrow> nat \<Rightarrow> string" where
  "msg_many_heads branch n =
     ''branch '' @ quote @ branch @ quote @ '' has '' @ str_nat n @ '' heads - ''
     @ ''please merge with an explicit rev'' @ newline
     @ ''(run '' @ quote @ ''hg heads .'' @ quote @ '' to see heads)''"

definition msg_one_head :: "string \<Rightarrow> string" where
  "msg_one_head branch =
     ''branch '' @ quote @ branch @ quote @ '' has one head - ''
     @ ''please merge with an explicit rev'' @ newline
     @ ''(run '' @ quote @ ''hg heads'' @ quote @ '' to see all heads)''"

definition msg_nothing :: string where
  "msg_nothing = ''there is nothing to merge''"

definition msg_not_at_head :: string where
  "msg_not_at_head =
     ''working dir not at a head rev - use \"hg update\" or merge with an explicit rev''"

text \<open>
  \<open>node = parent == bheads[0] and bheads[-1] or bheads[0]\<close>: Python's
  \<open>and\<close>/\<open>or\<close> return an operand, so an empty \<open>bheads[-1]\<close> falls
  through to \<open>bheads[0]\<close>.
\<close>

definition pick_other :: "node \<Rightarrow> node list \<Rightarrow> node" where
  "pick_other parent bheads =
     (if parent = hd bheads \<and> last bheads \<noteq> [] then last bheads else hd bheads)"

definition default_target :: "merge_repo \<Rightarrow> exn + node" where
  "default_target repo =
     (let branch = wbranch repo;
          bheads = branchheads repo branch
      in if length bheads > 2 then Inl (Abort (msg_many_heads branch (length bheads)) None)
         else
           let parent = fst (dirstate_parents repo)
           in if length bheads = 1 then
                (if length (repo_heads repo) > 1 then Inl (Abort (msg_one_head branch) None)
                 else if parent \<noteq> lookup_branch repo (wbranch repo)
                 then Inl (Abort (msg_nothing @ '' - use \"hg update\" instead'') None)
                 else Inl (Abort msg_nothing None))
              else if parent \<notin> set bheads then Inl (Abort msg_not_at_head None)
              else Inr (pick_other parent bheads))"

definition merge_cmd :: "merge_repo \<Rightarrow> string option \<Rightarrow> merge_opts \<Rightarrow> exn + merge_action" where
  "merge_cmd repo node opts =
     (if truthy (opt_rev opts) \<and> truthy node
      then Inl (Abort ''please specify just one revision'' None)
      else
        let node1 = (if \<not> truthy node then opt_rev opts else node)
        in case (case node1 of
                   None \<Rightarrow> default_target repo
                 | Some s \<Rightarrow> if s = [] then default_target repo else Inr s) of
             Inl e \<Rightarrow> Inl e
           | Inr n \<Rightarrow>
               if opt_preview opts then Inr (ShowPreview n)
               else Inr (HgMerge n (opt_force opts)))"

section \<open>dispatch: exit status and the global exception handler\<close>

text \<open>
  \<open>str.split()\<close> with no argument: the maximal runs of characters that are not
  white space.
\<close>

definition is_space :: "char \<Rightarrow> bool" where
  "is_space c = (c \<in> set [CHR '' '', CHR 0x09, CHR 0x0A, CHR 0x0B, CHR 0x0C, CHR 0x0D])"

fun split_ws :: "string \<Rightarrow> string \<Rightarrow> string list" where
  "split_ws acc [] = (if acc = [] then [] else [acc])"
| "split_ws acc (c # cs) =
     (if is_space c then (if acc = [] then split_ws [] cs else acc # split_ws [] cs)
      else split_ws (acc @ [c]) cs)"

definition py_split :: "string \<Rightarrow> string list" where
  "py_split s = split_ws [] s"

text \<open>\<open>' '.join(xs)\<close>.\<close>

fun join_sp :: "string list \<Rightarrow> string" where
  "join_sp [] = []"
| "join_sp [x] = x"
| "join_sp (x # y # ys) = x @ '' '' @ join_sp (y # ys)"

text \<open>The values of \<open>errno.EPIPE\<close> and \<open>errno.ETIMEDOUT\<close> (Linux).\<close>

definition EPIPE :: int where
  "EPIPE = 32"

definition ETIMEDOUT :: int where
  "ETIMEDOUT = 110"

text \<open>
  \<open>run\<close> is \<open>sys.exit(dispatch(sys.argv[1:]))\<close>: \<open>None\<close> exits with 0, a
  boolean or an integer with its value, of which the system keeps the low eight bits.
\<close>

definition sys_exit :: "pyval \<Rightarrow> int" where
  "sys_exit v =
     (case v of PyNone \<Rightarrow> 0 | PyBool b \<Rightarrow> (if b then 1 else 0) | PyInt n \<Rightarrow> n mod 256)"

text \<open>
  What \<open>_runcatch\<close> does to its \<open>ui\<close> and to the debugger, in the order of the
  calls: \<open>ui.warn\<close> with its text, \<open>ui.flush\<close>, \<open>ui.traceback\<close>,
  \<open>commands.help_\<close> with its topic and \<open>unknowncmd\<close>, and the three calls of
  \<open>pdb\<close> and \<open>traceback\<close> under \<open>--debugger\<close>.
\<close>

datatype ui_call =
    Warn string
  | Flush
  | UiTraceback
  | Help string bool
  | SetTrace
  | PrintExc
  | PostMortem

text \<open>
  What the handler reads besides the exception: \<open>ui.debugflag\<close>, Python's
  \<open>%r\<close>, \<open>util.ellipsis\<close>, whether \<open>help_\<close> raises
  \<open>UnknownCommand\<close> for a command, and the three texts of the report of an unknown
  exception (\<open>sys.version\<close>, \<open>util.version()\<close>, the names of the extensions).
\<close>

record ui_env =
  debugflag :: bool
  repr :: "string \<Rightarrow> string"
  ellipsis :: "string \<Rightarrow> string"
  help_unknown :: "string \<Rightarrow> bool"
  sys_version :: string
  hg_version :: string
  ext_names :: "string list"

fun join_with :: "string \<Rightarrow> string list \<Rightarrow> string" where
  "join_with sep [] = []"
| "join_with sep [x] = x"
| "join_with sep (x # y # ys) = x @ sep @ join_with sep (y # ys)"

definition or_else :: "string option \<Rightarrow> string \<Rightarrow> string" where
  "or_else a b = (case a of None \<Rightarrow> b | Some s \<Rightarrow> if s = [] then b else s)"

text \<open>
  The \<open>except IOError\<close> clause. Its third test evaluates \<open>inst.args[0]\<close>,
  which raises \<open>IndexError\<close> when \<open>args\<close> is empty; its last branch
  raises the error again.
\<close>

definition handle_ioerror :: "ui_env \<Rightarrow> ioerror \<Rightarrow> ui_call list \<times> (exn + pyval)" where
  "handle_ioerror env inst =
     (if io_code inst then ([Warn (''abort: '' @ io_str inst @ newline)], Inr (PyInt (- 1)))
      else case io_reason inst of
        Some reason \<Rightarrow> ([Warn (''abort: error: '' @ reason @ newline)], Inr (PyInt (- 1)))
      | None \<Rightarrow>
          (case io_args0 inst of
             ArgsEmpty \<Rightarrow> ([], Inl IndexError)
           | a \<Rightarrow>
               if a = ArgInt EPIPE then
                 (if debugflag env then [Warn (''broken pipe'' @ newline)] else [],
                  Inr (PyInt (- 1)))
               else if truthy (io_strerror inst) then
                 (if truthy (io_filename inst)
                  then ([Warn (''abort: '' @ the (io_strerror inst) @ '': ''
                               @ the (io_filename inst) @ newline)], Inr (PyInt (- 1)))
                  else ([Warn (''abort: '' @ the (io_strerror inst) @ newline)],
                        Inr (PyInt (- 1))))
               else ([], Inl (IOError inst))))"

text \<open>
  The handlers of \<open>_runcatch\<close>, in the order of the \<open>except\<close> clauses. The result
  is what is written and either the value returned (\<open>Inr\<close>) or the exception that
  leaves \<open>_runcatch\<close> (\<open>Inl\<close>). A clause that ends without \<open>return\<close> goes
  on to the final \<open>return -1\<close>. The clause \<open>except socket.error\<close> comes after
  \<open>except IOError\<close>, which takes every socket error, and is never reached.
\<close>

fun handle_exn :: "ui_env \<Rightarrow> exn \<Rightarrow> ui_call list \<times> (exn + pyval)" where
  "handle_exn env (AmbiguousCommand c ms) =
     ([Warn (''hg: command '' @ quote @ c @ quote @ '' is ambiguous:'' @ newline
             @ ''    '' @ join_sp ms @ newline)], Inr (PyInt (- 1)))"
| "handle_exn env (ParseError m loc) =
     (case loc of
        Some l \<Rightarrow> ([Warn (''hg: parse error at '' @ l @ '': '' @ m @ newline)],
                    Inr (PyInt (- 1)))
      | None \<Rightarrow> ([Warn (''hg: parse error: '' @ m @ newline)], Inr (PyInt (- 1))))"
| "handle_exn env (LockHeld errno filename desc locker) =
     (let reason = (if errno = ETIMEDOUT
                    then ''timed out waiting for lock held by '' @ locker
                    else ''lock held by '' @ locker)
      in ([Warn (''abort: '' @ or_else desc filename @ '': '' @ reason @ newline)],
          Inr (PyInt (- 1))))"
| "handle_exn env (LockUnavailable filename desc strerror) =
     ([Warn (''abort: could not lock '' @ or_else desc filename @ '': '' @ strerror
             @ newline)], Inr (PyInt (- 1)))"
| "handle_exn env (CommandError c m) =
     (if truthy c
      then ([Warn (''hg '' @ the c @ '': '' @ m @ newline), Help (the c) False],
            Inr (PyInt (- 1)))
      else ([Warn (''hg: '' @ m @ newline), Help ''shortlist'' False], Inr (PyInt (- 1))))"
| "handle_exn env (RepoError m) =
     ([Warn (''abort: '' @ m @ ''!'' @ newline)], Inr (PyInt (- 1)))"
| "handle_exn env (ResponseError m a) =
     (Warn (''abort: '' @ m) #
      (case a of
         RespObj r \<Rightarrow> [Warn ('' '' @ r @ newline)]
       | RespStr s \<Rightarrow>
           if s = [] then [Warn ('' empty string'' @ newline)]
           else [Warn (newline @ repr env (ellipsis env s) @ newline)]),
      Inr (PyInt (- 1)))"
| "handle_exn env (RevlogError m) =
     ([Warn (''abort: '' @ m @ ''!'' @ newline)], Inr (PyInt (- 1)))"
| "handle_exn env SignalInterrupt =
     ([Warn (''killed!'' @ newline)], Inr (PyInt (- 1)))"
| "handle_exn env (UnknownCommand c) =
     (Warn (''hg: unknown command '' @ quote @ c @ quote @ newline) #
      (if help_unknown env c then [Help c True, Help ''shortlist'' False]
       else [Help c True]),
      Inr (PyInt (- 1)))"
| "handle_exn env (Abort m hint) =
     (Warn (''abort: '' @ m @ newline) #
      (if truthy hint then [Warn (''('' @ the hint @ '')'' @ newline)] else []),
      Inr (PyInt (- 1)))"
| "handle_exn env (ImportError m) =
     (case py_split m of
        [] \<Rightarrow> ([Warn (''abort: '' @ m @ ''!'' @ newline)], Inl IndexError)
      | ws \<Rightarrow>
          (Warn (''abort: '' @ m @ ''!'' @ newline) #
           (if last ws \<in> set [''mpatch'', ''bdiff'']
            then [Warn (''(did you forget to compile extensions?)'' @ newline)]
            else if last ws \<in> set [''zlib'']
            then [Warn (''(is your Python install correct?)'' @ newline)]
            else []),
           Inr (PyInt (- 1))))"
| "handle_exn env (IOError inst) = handle_ioerror env inst"
| "handle_exn env (OSError strerror filename) =
     (if truthy filename
      then ([Warn (''abort: '' @ strerror @ '': '' @ the filename @ newline)],
            Inr (PyInt (- 1)))
      else ([Warn (''abort: '' @ strerror @ newline)], Inr (PyInt (- 1))))"
| "handle_exn env KeyboardInterrupt =
     ([Warn (''interrupted!'' @ newline)], Inr (PyInt (- 1)))"
| "handle_exn env MemoryError =
     ([Warn (''abort: out of memory'' @ newline)], Inr (PyInt (- 1)))"
| "handle_exn env (SystemExit code) = ([], Inr code)"
| "handle_exn env e =
     ([Warn (''** unknown exception encountered, please report by visiting'' @ newline),
       Warn (''**  http://mercurial.selenic.com/wiki/BugTracker'' @ newline),
       Warn (''** Python '' @ filter (\<lambda>c. c \<noteq> CHR 0x0A) (sys_version env) @ newline),
       Warn (''** Mercurial Distributed SCM (version '' @ hg_version env @ '')''
             @ newline),
       Warn (''** Extensions loaded: '' @ join_with '', '' (ext_names env) @ newline)],
      Inl e)"

text \<open>
  \<open>_runcatch(ui, args)\<close>, given what \<open>_dispatch(ui, args)\<close> does: it returns the
  value of the command, or an exception leaves it.
\<close>

definition runcatch :: "ui_env \<Rightarrow> string list \<Rightarrow> exn + pyval \<Rightarrow> ui_call list \<times> (exn + pyval)" where
  "runcatch env args outcome =
     (let dbg = (''--debugger'' \<in> set args);
          pre = (if dbg
                 then [Warn (''entering debugger - type c to continue starting hg or h for help''
                             @ newline), SetTrace]
                 else []) @ [Flush]
      in case outcome of
           Inr v \<Rightarrow> (pre, Inr v)
         | Inl e \<Rightarrow>
             (let (out, res) = handle_exn env e
              in (pre @ (if dbg then [PrintExc, PostMortem] else []) @ [UiTraceback] @ out,
                  res)))"


text \<open>The text that the \<open>ui.warn\<close> calls write, and the number of its lines.\<close>

fun warned :: "ui_call list \<Rightarrow> string" where
  "warned [] = []"
| "warned (Warn s # cs) = s @ warned cs"
| "warned (c # cs) = warned cs"



text \<open>The exit status of the process: \<open>run\<close> on top of \<open>_runcatch\<close>.\<close>

definition exit_status :: "ui_env \<Rightarrow> string list \<Rightarrow> exn + pyval \<Rightarrow> exn + int" where
  "exit_status env args outcome =
     (case snd (runcatch env args outcome) of
        Inl e \<Rightarrow> Inl e
      | Inr v \<Rightarrow> Inr (sys_exit v))"

section \<open>commands.bundle: the compression type\<close>

text \<open>\<open>str.lower()\<close> on the ASCII letters.\<close>

definition lower_char :: "char \<Rightarrow> char" where
  "lower_char c =
     (case map_of (zip ''ABCDEFGHIJKLMNOPQRSTUVWXYZ'' ''abcdefghijklmnopqrstuvwxyz'') c of
        None \<Rightarrow> c
      | Some l \<Rightarrow> l)"

definition lower :: "string \<Rightarrow> string" where
  "lower s = map lower_char s"

text \<open>The dictionary \<open>btypes\<close> of \<open>bundle\<close>.\<close>

definition btypes :: "(string \<times> string) list" where
  "btypes = [(''none'', ''HG10UN''), (''bzip2'', ''HG10BZ''), (''gzip'', ''HG10GZ'')]"

text \<open>
  The options \<open>bundle\<close> reads: \<open>--all\<close>, \<open>--base\<close> and \<open>--type\<close>, the
  last one \<open>None\<close> when the key is not in \<open>opts\<close>.
\<close>

record bundle_opts =
  bopt_all :: bool
  bopt_base :: "string list"
  bopt_type :: "string option"

text \<open>
  How the command ends when it does not raise: with \<open>no changes found\<close> and the
  value 1, or with \<open>changegroup.writebundle(cg, fname, bundletype)\<close>.
\<close>

datatype bundle_outcome =
    NoChanges
  | WriteBundle string

text \<open>
  \<open>bundle\<close>. The list \<open>outgoing\<close> is the \<open>o\<close> that the first half of the
  command computes from the repository (the walk down from the heads with \<open>--base\<close>,
  \<open>discovery.findoutgoing\<close> without); \<open>bundletypes\<close> are the keys of
  \<open>changegroup.bundletypes\<close>, which is not among the sources. \<open>btypes.get\<close>
  gives \<open>None\<close> for a type it does not know, and \<open>None\<close> is no key of a
  dictionary of strings.
\<close>

definition bundle_cmd ::
  "string list \<Rightarrow> bundle_opts \<Rightarrow> string option \<Rightarrow> node list \<Rightarrow> exn + bundle_outcome" where
  "bundle_cmd bundletypes opts dest outgoing =
     (let base = (if bopt_all opts then [''null''] else bopt_base opts)
      in if base \<noteq> [] \<and> truthy dest
         then Inl (Abort ''--base is incompatible with specifying a destination'' None)
         else if outgoing = [] then Inr NoChanges
         else
           let bundletype = lower (case bopt_type opts of None \<Rightarrow> ''bzip2'' | Some t \<Rightarrow> t)
           in case map_of btypes bundletype of
                None \<Rightarrow> Inl (Abort ''unknown bundle type specified with --type'' None)
              | Some w \<Rightarrow>
                  if w \<notin> set bundletypes
                  then Inl (Abort ''unknown bundle type specified with --type'' None)
                  else Inr (WriteBundle w))"

section \<open>Pushkey and commands.debugpushkey\<close>

text \<open>
  Modelled from the spec: \<open>pushkey\<close> of the repository (\<open>mercurial/pushkey.py\<close>
  and \<open>localrepo.pushkey\<close>) is not among the sources. The spec has it as a map from
  \<open>(namespace, key)\<close> to a value with compare-and-swap: \<open>push(ns, key, old, new)\<close>
  stores \<open>new\<close> when the value now stored is \<open>old\<close> and says whether it did.
\<close>

type_synonym keystore = "string \<times> string \<Rightarrow> string"

definition pushkey_push ::
  "keystore \<Rightarrow> string \<Rightarrow> string \<Rightarrow> string \<Rightarrow> string \<Rightarrow> keystore \<times> bool" where
  "pushkey_push st ns key old new =
     (if st (ns, key) = old then (st((ns, key) := new), True) else (st, False))"

text \<open>
  The repository \<open>debugpushkey\<close> opens: its store of keys and what \<open>listkeys\<close>
  returns for a namespace, in the order \<open>iteritems\<close> gives.
\<close>

record push_target =
  keys :: keystore
  listkeys :: "string \<Rightarrow> (string \<times> string) list"

definition str_bool :: "bool \<Rightarrow> string" where
  "str_bool b = (if b then ''True'' else ''False'')"

text \<open>
  \<open>debugpushkey\<close>. The result is the repository afterwards, what went to
  \<open>ui.status\<close> and \<open>ui.write\<close>, and the value returned. \<open>escape\<close> is
  \<open>str.encode('string-escape')\<close>. Unpacking \<open>keyinfo\<close> into three names raises
  \<open>ValueError\<close> when it has another length.
\<close>

definition debugpushkey ::
  "(string \<Rightarrow> string) \<Rightarrow> push_target \<Rightarrow> string \<Rightarrow> string list
     \<Rightarrow> exn + (push_target \<times> string list \<times> pyval)" where
  "debugpushkey escape tgt namespace keyinfo =
     (if keyinfo \<noteq> [] then
        (case keyinfo of
           [key, old, new] \<Rightarrow>
             (let (st, r) = pushkey_push (keys tgt) namespace key old new
              in Inr (tgt\<lparr>keys := st\<rparr>, [str_bool r @ newline], PyBool (\<not> r)))
         | _ \<Rightarrow> Inl ValueError)
      else Inr (tgt,
                map (\<lambda>(k, v). escape k @ [CHR 0x09] @ escape v @ newline)
                    (listkeys tgt namespace),
                PyNone))"

section \<open>hgext.acl: the access control hook\<close>

text \<open>
  What the hook reads from \<open>ui\<close> and from the system: the items of a section
  (\<open>None\<close> when \<open>ui.has_section\<close> is false), the value of \<open>acl.sources\<close> when
  it is set, the members \<open>[acl.groups]\<close> lists for a group, the members of a group
  of the system (\<open>None\<close> when \<open>util.groupmembers\<close> raises \<open>KeyError\<close>) and
  \<open>getpass.getuser()\<close>. The sections are those in force after the file named by
  \<open>acl.config\<close> has been read.
\<close>

record acl_ui =
  section_items :: "string \<Rightarrow> (string \<times> string) list option"
  acl_sources :: "string option"
  group_cfg :: "string \<Rightarrow> string list"
  os_group :: "string \<Rightarrow> string list option"
  getuser :: string

text \<open>
  \<open>match.match(repo.root, '', pats)\<close> and \<open>match.exact(repo.root, '', [])\<close> of
  \<open>mercurial/match.py\<close>, which is not among the sources, as the predicates on file
  names they return.
\<close>

record matchers =
  match_pats :: "string list \<Rightarrow> string \<Rightarrow> bool"
  match_exact_none :: "string \<Rightarrow> bool"

text \<open>An incoming changeset: \<open>str(ctx)\<close>, \<open>ctx.branch()\<close> and \<open>ctx.files()\<close>.\<close>

record changeset =
  cs_id :: string
  cs_branch :: string
  cs_files :: "string list"

text \<open>
  The functions below return the \<open>ui.debug\<close> messages they write, in order, and
  the value or the exception they end with.
\<close>

definition dq :: string where
  "dq = [CHR 0x22]"

definition getusers :: "acl_ui \<Rightarrow> string \<Rightarrow> string list \<times> (exn + string list)" where
  "getusers ui grp =
     (let hgrcusers = group_cfg ui grp
      in if hgrcusers \<noteq> [] then ([], Inr hgrcusers)
         else ([''acl: '' @ dq @ grp @ dq @ '' not defined in [acl.groups]'' @ newline],
               case os_group ui grp of
                 Some us \<Rightarrow> Inr us
               | None \<Rightarrow> Inl (Abort (''group '' @ quote @ grp @ quote @ '' is undefined'')
                                  None)))"

text \<open>\<open>usersorgroups.replace(',', ' ')\<close>.\<close>

definition commas_to_spaces :: "string \<Rightarrow> string" where
  "commas_to_spaces s = map (\<lambda>c. if c = CHR '','' then CHR '' '' else c) s"

text \<open>The loop of \<open>_usermatch\<close> over the users and groups of an entry.\<close>

fun usermatch_loop :: "acl_ui \<Rightarrow> string \<Rightarrow> string list \<Rightarrow> string list \<times> (exn + bool)" where
  "usermatch_loop ui user [] = ([], Inr False)"
| "usermatch_loop ui user (ug # ugs) =
     (if user = ug then ([], Inr True)
      else if take 1 ug = ''@'' then
        (case getusers ui (drop 1 ug) of
           (d, Inl e) \<Rightarrow> (d, Inl e)
         | (d, Inr us) \<Rightarrow>
             if user \<in> set us then (d, Inr True)
             else (let (d', r) = usermatch_loop ui user ugs in (d @ d', r)))
      else usermatch_loop ui user ugs)"

definition usermatch :: "acl_ui \<Rightarrow> string \<Rightarrow> string \<Rightarrow> string list \<times> (exn + bool)" where
  "usermatch ui user usersorgroups =
     (if usersorgroups = ''*'' then ([], Inr True)
      else usermatch_loop ui user (py_split (commas_to_spaces usersorgroups)))"

text \<open>
  The list comprehension of \<open>buildmatch\<close>: the patterns of the entries that match
  the user.
\<close>

fun user_pats ::
  "acl_ui \<Rightarrow> string \<Rightarrow> (string \<times> string) list \<Rightarrow> string list \<times> (exn + string list)" where
  "user_pats ui user [] = ([], Inr [])"
| "user_pats ui user ((pat, users) # items) =
     (case usermatch ui user users of
        (d, Inl e) \<Rightarrow> (d, Inl e)
      | (d, Inr b) \<Rightarrow>
          (case user_pats ui user items of
             (d', Inl e) \<Rightarrow> (d @ d', Inl e)
           | (d', Inr pats) \<Rightarrow> (d @ d', Inr (if b then pat # pats else pats))))"

text \<open>
  \<open>buildmatch(ui, repo, user, key)\<close>; \<open>None\<close> for \<open>repo\<close> is the call for a
  list of branches. The result \<open>None\<close> says that the section is not there.
\<close>

definition buildmatch ::
  "acl_ui \<Rightarrow> matchers option \<Rightarrow> string \<Rightarrow> string
     \<Rightarrow> string list \<times> (exn + (string \<Rightarrow> bool) option)" where
  "buildmatch ui repo user key =
     (case section_items ui key of
        None \<Rightarrow> ([''acl: '' @ key @ '' not enabled'' @ newline], Inr None)
      | Some items \<Rightarrow>
          (case user_pats ui user items of
             (d, Inl e) \<Rightarrow> (d, Inl e)
           | (d, Inr pats) \<Rightarrow>
               (d @ [''acl: '' @ key @ '' enabled, '' @ str_nat (length pats)
                     @ '' entries for user '' @ user @ newline],
                Inr (Some
                  (case repo of
                     None \<Rightarrow>
                       if pats \<noteq> [] then (\<lambda>b. ''*'' \<in> set pats \<or> b \<in> set pats)
                       else (\<lambda>b. False)
                   | Some m \<Rightarrow>
                       if pats \<noteq> [] then match_pats m pats else match_exact_none m)))))"

text \<open>
  A list that is there and matches: \<open>deny and deny(f)\<close>; a list that is there and
  does not match: \<open>allow and not allow(f)\<close>.
\<close>

definition hits :: "(string \<Rightarrow> bool) option \<Rightarrow> string \<Rightarrow> bool" where
  "hits m x = (case m of None \<Rightarrow> False | Some p \<Rightarrow> p x)"

definition misses :: "(string \<Rightarrow> bool) option \<Rightarrow> string \<Rightarrow> bool" where
  "misses m x = (case m of None \<Rightarrow> False | Some p \<Rightarrow> \<not> p x)"

text \<open>The inner loop of \<open>hook\<close> over the files of a changeset.\<close>

fun check_files ::
  "string \<Rightarrow> (string \<Rightarrow> bool) option \<Rightarrow> (string \<Rightarrow> bool) option \<Rightarrow> string \<Rightarrow> string list
     \<Rightarrow> string list \<times> (exn + unit)" where
  "check_files user allow deny ctx [] = ([], Inr ())"
| "check_files user allow deny ctx (f # fs) =
     (if hits deny f
      then ([''acl: user '' @ user @ '' denied on '' @ f @ newline],
            Inl (Abort (''acl: access denied for changeset '' @ ctx) None))
      else if misses allow f
      then ([''acl: user '' @ user @ '' not allowed on '' @ f @ newline],
            Inl (Abort (''acl: access denied for changeset '' @ ctx) None))
      else check_files user allow deny ctx fs)"

text \<open>The four lists: branches allowed and denied, paths allowed and denied.\<close>

record acl_lists =
  allowbranches :: "(string \<Rightarrow> bool) option"
  denybranches :: "(string \<Rightarrow> bool) option"
  allow :: "(string \<Rightarrow> bool) option"
  deny :: "(string \<Rightarrow> bool) option"

definition msg_branch_denied :: "string \<Rightarrow> changeset \<Rightarrow> string" where
  "msg_branch_denied user ctx =
     ''acl: user '' @ dq @ user @ dq @ '' denied on branch '' @ dq @ cs_branch ctx @ dq
     @ '' (changeset '' @ dq @ cs_id ctx @ dq @ '')''"

definition msg_branch_not_allowed :: "string \<Rightarrow> changeset \<Rightarrow> string" where
  "msg_branch_not_allowed user ctx =
     ''acl: user '' @ dq @ user @ dq @ '' not allowed on branch '' @ dq @ cs_branch ctx @ dq
     @ '' (changeset '' @ dq @ cs_id ctx @ dq @ '')''"

text \<open>The outer loop of \<open>hook\<close> over the incoming changesets.\<close>

fun check_revs :: "string \<Rightarrow> acl_lists \<Rightarrow> changeset list \<Rightarrow> string list \<times> (exn + unit)" where
  "check_revs user ls [] = ([], Inr ())"
| "check_revs user ls (ctx # ctxs) =
     (let branch = cs_branch ctx
      in if hits (denybranches ls) branch
         then ([], Inl (Abort (msg_branch_denied user ctx) None))
         else if misses (allowbranches ls) branch
         then ([], Inl (Abort (msg_branch_not_allowed user ctx) None))
         else
           let d0 = [''acl: branch access granted: '' @ dq @ cs_id ctx @ dq @ '' on branch ''
                     @ dq @ branch @ dq @ newline]
           in case check_files user (allow ls) (deny ls) (cs_id ctx) (cs_files ctx) of
                (d, Inl e) \<Rightarrow> (d0 @ d, Inl e)
              | (d, Inr u) \<Rightarrow>
                  (let (d', r) = check_revs user ls ctxs
                   in (d0 @ d @ [''acl: allowing changeset '' @ cs_id ctx @ newline] @ d', r)))"

text \<open>
  The four calls of \<open>buildmatch\<close>, in the order of the source: branches allowed,
  branches denied, paths allowed, paths denied.
\<close>

definition build_lists ::
  "acl_ui \<Rightarrow> matchers \<Rightarrow> string \<Rightarrow> string list \<times> (exn + acl_lists)" where
  "build_lists ui m user =
     (case buildmatch ui None user ''acl.allow.branches'' of
        (d1, Inl e) \<Rightarrow> (d1, Inl e)
      | (d1, Inr ab) \<Rightarrow>
     (case buildmatch ui None user ''acl.deny.branches'' of
        (d2, Inl e) \<Rightarrow> (d1 @ d2, Inl e)
      | (d2, Inr db) \<Rightarrow>
     (case buildmatch ui (Some m) user ''acl.allow'' of
        (d3, Inl e) \<Rightarrow> (d1 @ d2 @ d3, Inl e)
      | (d3, Inr a) \<Rightarrow>
     (case buildmatch ui (Some m) user ''acl.deny'' of
        (d4, Inl e) \<Rightarrow> (d1 @ d2 @ d3 @ d4, Inl e)
      | (d4, Inr d) \<Rightarrow>
          (d1 @ d2 @ d3 @ d4,
           Inr \<lparr>allowbranches = ab, denybranches = db, allow = a, deny = d\<rparr>)))))"

text \<open>
  The two ways the hook returns: at once, for changes whose source is not listed in
  \<open>acl.sources\<close>, or after the loop over the changesets.
\<close>

datatype acl_result = Skipped | Checked

text \<open>
  \<open>hook\<close>. \<open>url_user\<close> is the user that the \<open>url\<close> keyword of a served
  request names (\<open>urllib.unquote(url[3])\<close> of a \<open>remote:http...\<close> url) and
  \<open>None\<close> when there is no such url; \<open>incoming\<close> are the changesets from
  \<open>node\<close> up to the tip. \<open>skipped\<close> is the test on the source of the
  changes, \<open>hook_user\<close> the choice of the user.
\<close>

definition skipped :: "acl_ui \<Rightarrow> string \<Rightarrow> string option \<Rightarrow> bool" where
  "skipped ui hooktype source =
     (hooktype = ''pretxnchangegroup''
      \<and> (case source of
            None \<Rightarrow> True
          | Some s \<Rightarrow>
              s \<notin> set (py_split (case acl_sources ui of None \<Rightarrow> ''serve'' | Some v \<Rightarrow> v))))"

definition hook_user :: "acl_ui \<Rightarrow> string option \<Rightarrow> string option \<Rightarrow> string" where
  "hook_user ui source url_user =
     (case (if source = Some ''serve'' then url_user else None) of
        None \<Rightarrow> getuser ui
      | Some u \<Rightarrow> u)"

definition hook ::
  "acl_ui \<Rightarrow> matchers \<Rightarrow> string \<Rightarrow> string option \<Rightarrow> string option \<Rightarrow> changeset list
     \<Rightarrow> string list \<times> (exn + acl_result)" where
  "hook ui m hooktype source url_user incoming =
     (if hooktype \<notin> set [''pretxnchangegroup'', ''pretxncommit'']
      then ([], Inl (Abort (''config error - hook type '' @ dq @ hooktype @ dq
                            @ '' cannot stop incoming changesets nor commits'') None))
      else if skipped ui hooktype source
      then ([''acl: changes have source '' @ dq
             @ (case source of None \<Rightarrow> ''None'' | Some s \<Rightarrow> s) @ dq @ '' - skipping''
             @ newline], Inr Skipped)
      else
        let user = hook_user ui source url_user
        in case build_lists ui m user of
             (d, Inl e) \<Rightarrow> (d, Inl e)
           | (d, Inr ls) \<Rightarrow>
               (case check_revs user ls incoming of
                  (d', Inl e) \<Rightarrow> (d @ d', Inl e)
                | (d', Inr u) \<Rightarrow> (d @ d', Inr Checked)))"

text \<open>
  The property of a changeset that the hook is to enforce, stated over the four lists:
  its branch is in no list of denied branches and in the list of allowed branches if
  there is one, and so is each of its files for the lists of paths.
\<close>

definition passes_checks :: "acl_lists \<Rightarrow> changeset \<Rightarrow> bool" where
  "passes_checks ls c =
     (\<not> hits (denybranches ls) (cs_branch c) \<and> \<not> misses (allowbranches ls) (cs_branch c)
      \<and> (\<forall>f\<in>set (cs_files c). \<not> hits (deny ls) f \<and> \<not> misses (allow ls) f))"

section \<open>commands.resolve and the merge state\<close>

datatype rstate = Unresolved | Resolved

text \<open>
  The merge state: the paths of the merge with their state, in the order in which
  \<open>for f in ms\<close> visits them.
\<close>

type_synonym mergestate = "(string \<times> rstate) list"

text \<open>
  Modelled from the spec: the class \<open>mergestate\<close> (\<open>mercurial/merge.py\<close>) is not
  among the sources. \<open>mark\<close> records a state for a path. \<open>resolve\<close> runs the
  merge tool on a path, unless the path is resolved already, and takes the path from
  unresolved to resolved when the tool succeeds; its value is true when the tool failed.
\<close>

definition ms_mark :: "mergestate \<Rightarrow> string \<Rightarrow> rstate \<Rightarrow> mergestate" where
  "ms_mark ms f s = map (\<lambda>(p, t). if p = f then (p, s) else (p, t)) ms"

definition ms_resolve :: "(string \<Rightarrow> bool) \<Rightarrow> mergestate \<Rightarrow> string \<Rightarrow> mergestate \<times> bool" where
  "ms_resolve tool ms f =
     (if map_of ms f = Some Resolved then (ms, False)
      else if tool f then (ms_mark ms f Resolved, False)
      else (ms, True))"

text \<open>
  Modelled from the spec: \<open>commit\<close> of the repository (\<open>mercurial/localrepo.py\<close>)
  is not among the sources. A commit is refused while a path of the merge state is
  unresolved; a commit that succeeds clears the merge state.
\<close>

definition repo_commit :: "mergestate \<Rightarrow> exn + mergestate" where
  "repo_commit ms =
     (if Unresolved \<in> set (map snd ms) then Inl (Abort ''unresolved merge conflicts'' None)
      else Inr [])"

record resolve_opts =
  ropt_all :: bool
  ropt_mark :: bool
  ropt_unmark :: bool
  ropt_list :: bool
  ropt_no_status :: bool

definition state_letter :: "rstate \<Rightarrow> string" where
  "state_letter s = (case s of Unresolved \<Rightarrow> ''U'' | Resolved \<Rightarrow> ''R'')"

text \<open>
  The loop of \<open>resolve\<close> over the paths of the merge state: the merge state, what
  has been written and \<open>ret\<close> go from one path to the next. \<open>m\<close> is the matcher
  of the patterns, \<open>tool\<close> says for which paths the merge tool succeeds. The copies
  of the file to \<open>.resolve\<close> and \<open>.orig\<close> around the tool are left out.
\<close>

fun resolve_loop ::
  "(string \<Rightarrow> bool) \<Rightarrow> (string \<Rightarrow> bool) \<Rightarrow> resolve_opts \<Rightarrow> string list
     \<Rightarrow> mergestate \<times> string list \<times> int \<Rightarrow> mergestate \<times> string list \<times> int" where
  "resolve_loop tool m opts [] acc = acc"
| "resolve_loop tool m opts (f # fs) (ms, out, ret) =
     resolve_loop tool m opts fs
       (if m f then
          (if ropt_list opts then
             (if ropt_no_status opts then (ms, out @ [f @ newline], ret)
              else (ms,
                    out @ [(case map_of ms f of None \<Rightarrow> [] | Some s \<Rightarrow> state_letter s)
                           @ '' '' @ f @ newline],
                    ret))
           else if ropt_mark opts then (ms_mark ms f Resolved, out, ret)
           else if ropt_unmark opts then (ms_mark ms f Unresolved, out, ret)
           else (let (ms', r) = ms_resolve tool ms f
                 in (ms', out, if r then 1 else ret)))
        else (ms, out, ret))"

text \<open>
  \<open>resolve\<close>: the merge state that \<open>ms.commit()\<close> saves, what has been written
  and the value returned.
\<close>

definition resolve_cmd ::
  "(string \<Rightarrow> bool) \<Rightarrow> (string \<Rightarrow> bool) \<Rightarrow> mergestate \<Rightarrow> string list \<Rightarrow> resolve_opts
     \<Rightarrow> exn + (mergestate \<times> string list \<times> int)" where
  "resolve_cmd tool m ms pats opts =
     (if (ropt_list opts \<and> (ropt_mark opts \<or> ropt_unmark opts))
         \<or> (ropt_mark opts \<and> ropt_unmark opts)
      then Inl (Abort ''too many options specified'' None)
      else if pats \<noteq> [] \<and> ropt_all opts
      then Inl (Abort (''can'' @ quote @ ''t specify --all and patterns'') None)
      else if \<not> (ropt_all opts \<or> pats \<noteq> [] \<or> ropt_list opts \<or> ropt_mark opts
                  \<or> ropt_unmark opts)
      then Inl (Abort (''no files or directories specified; ''
                       @ ''use --all to remerge all files'') None)
      else Inr (resolve_loop tool m opts (map fst ms) (ms, [], 0)))"

section \<open>Locks: mq.strip, queue.strip and commands.import\<close>

text \<open>
  What a command does to the repository, as far as the locks and the strip are
  concerned, in the order in which it does it.
\<close>

datatype event =
    AcquireWlock
  | AcquireLock
  | ReleaseLock
  | ReleaseWlock
  | CheckLocalChanges
  | Clean node
  | DirstateRebuild node
  | DirstateWrite
  | RemoveUndo
  | SaveDirty
  | WriteBackup node
  | Truncate node
  | DiscardBackup node
  | OpenPatch string
  | TryOne string nat

text \<open>
  What \<open>queue.strip\<close> and \<open>strip\<close> meet when they run: whether \<open>repo.wlock()\<close>
  and \<open>repo.lock()\<close> return or raise, whether \<open>check_localchanges\<close> raises, the
  value of \<open>qparents\<close>, whether \<open>repair.strip\<close> raises for a node, and the
  ranking that orders a set of nodes.
\<close>

record strip_env =
  se_wlock :: "exn option"
  se_lock :: "exn option"
  se_localchanges :: "exn option"
  se_qparents :: "node \<Rightarrow> node"
  se_strip :: "node \<Rightarrow> exn option"
  se_rank :: "node \<Rightarrow> nat"

text \<open>
  Modelled from the spec: \<open>repair.strip\<close> (\<open>mercurial/repair.py\<close>) is not among
  the sources. A strip truncates the revlogs after the revision and is always bundled
  as a backup; by the help text of \<open>strip\<close> the bundle goes to
  \<open>.hg/strip-backup\<close> and \<open>--no-backup\<close> discards it once the operation
  completes. A strip that raises has done nothing.
\<close>

definition repair_strip :: "strip_env \<Rightarrow> node \<Rightarrow> string \<Rightarrow> event list \<times> exn option" where
  "repair_strip env nd backup =
     (case se_strip env nd of
        Some e \<Rightarrow> ([], Some e)
      | None \<Rightarrow>
          ([WriteBackup nd, Truncate nd]
           @ (if backup = ''none'' then [DiscardBackup nd] else []), None))"

text \<open>The loop \<open>for rev in revs: repair.strip(self.ui, repo, rev, backup)\<close>.\<close>

fun strip_revs :: "strip_env \<Rightarrow> string \<Rightarrow> node list \<Rightarrow> event list \<times> exn option" where
  "strip_revs env backup [] = ([], None)"
| "strip_revs env backup (nd # revs) =
     (case repair_strip env nd backup of
        (evs, Some e) \<Rightarrow> (evs, Some e)
      | (evs, None) \<Rightarrow>
          (let (evs', r) = strip_revs env backup revs in (evs @ evs', r)))"

text \<open>The body of the \<open>try\<close> of \<open>queue.strip\<close>, after the two locks.\<close>

definition strip_body ::
  "strip_env \<Rightarrow> node list \<Rightarrow> bool \<Rightarrow> string \<Rightarrow> event list \<times> exn option" where
  "strip_body env revs update backup =
     (let (pre, r) =
            (if update then
               (case se_localchanges env of
                  Some e \<Rightarrow> ([CheckLocalChanges], Some e)
                | None \<Rightarrow>
                    (case revs of
                       [] \<Rightarrow> ([CheckLocalChanges], Some IndexError)
                     | nd # _ \<Rightarrow>
                         ([CheckLocalChanges, Clean (se_qparents env nd), DirstateWrite],
                          None)))
             else ([], None))
      in case r of
           Some e \<Rightarrow> (pre, Some e)
         | None \<Rightarrow>
             (case strip_revs env backup revs of
                (evs, Some e) \<Rightarrow> (pre @ [RemoveUndo] @ evs, Some e)
              | (evs, None) \<Rightarrow> (pre @ [RemoveUndo] @ evs @ [RemoveUndo], None)))"

text \<open>
  \<open>queue.strip\<close>. \<open>release(lock, wlock)\<close> in the \<open>finally\<close> releases the locks
  that have been taken, the store lock first.
\<close>

definition queue_strip ::
  "strip_env \<Rightarrow> node list \<Rightarrow> bool \<Rightarrow> string \<Rightarrow> event list \<times> exn option" where
  "queue_strip env revs update backup =
     (case se_wlock env of
        Some e \<Rightarrow> ([], Some e)
      | None \<Rightarrow>
          (case se_lock env of
             Some e \<Rightarrow> ([AcquireWlock, ReleaseWlock], Some e)
           | None \<Rightarrow>
               (let (evs, r) = strip_body env revs update backup
                in ([AcquireWlock, AcquireLock] @ evs @ [ReleaseLock, ReleaseWlock], r))))"

record strip_opts =
  sopt_backup :: bool
  sopt_no_backup :: bool
  sopt_nobackup :: bool
  sopt_keep :: bool

text \<open>
  What \<open>strip\<close> has computed from the repository when it comes to the locks: the
  revisions of \<open>cmdutil.revrange\<close>, their descendants, the revisions of the parents
  of the working directory that are not null, the node of a revision, and whether there
  are applied patches with \<open>qtip\<close> among the stripped revisions.
\<close>

record strip_args =
  sa_revs :: "nat list"
  sa_descendants :: "nat list"
  sa_wparents :: "nat list"
  sa_node :: "nat \<Rightarrow> node"
  sa_qtip_stripped :: bool

text \<open>
  \<open>strip\<close> of \<open>mq\<close>. The revisions and the nodes of the roots go through
  \<open>set()\<close>, and \<open>revs = list(rootnodes)\<close> lists the nodes in the order of that
  set; with \<open>--keep\<close> the dirstate is rebuilt under a working-directory lock of its
  own, which is released before \<open>queue.strip\<close> takes its locks.
\<close>

definition strip_cmd ::
  "strip_env \<Rightarrow> strip_args \<Rightarrow> strip_opts \<Rightarrow> event list \<times> (exn + pyval)" where
  "strip_cmd env a opts =
     (let backup = (if sopt_backup opts then ''strip''
                    else if sopt_no_backup opts \<or> sopt_nobackup opts then ''none''
                    else ''all'')
      in if sa_revs a = [] then ([], Inl (Abort ''empty revision set'' None))
         else
           let stripped = set (sa_revs a) \<union> set (sa_descendants a);
               roots = filter (\<lambda>r. r \<notin> set (sa_descendants a)) (sa_revs a);
               update = (\<exists>p\<in>set (sa_wparents a). p \<in> stripped);
               revs = set_list (se_rank env) (map (sa_node a) roots);
               ev0 = (if sa_qtip_stripped a then [SaveDirty] else [])
           in if update \<and> sopt_keep opts then
                (case se_wlock env of
                   Some e \<Rightarrow> (ev0, Inl e)
                 | None \<Rightarrow>
                     (case revs of
                        [] \<Rightarrow> (ev0 @ [AcquireWlock, ReleaseWlock], Inl IndexError)
                      | nd # _ \<Rightarrow>
                          (let ev1 = ev0 @ [AcquireWlock, DirstateRebuild (se_qparents env nd),
                                            DirstateWrite, ReleaseWlock]
                           in case queue_strip env revs False backup of
                                (evs, Some e) \<Rightarrow> (ev1 @ evs, Inl e)
                              | (evs, None) \<Rightarrow> (ev1 @ evs, Inr (PyInt 0)))))
              else
                (case queue_strip env revs update backup of
                   (evs, Some e) \<Rightarrow> (ev0 @ evs, Inl e)
                 | (evs, None) \<Rightarrow> (ev0 @ evs, Inr (PyInt 0))))"

text \<open>
  What \<open>import\<close> meets: whether the checks before the locks raise, whether the two
  locks are had, whether a patch can be opened, and for each hunk of a patch whether
  \<open>tryone\<close> raises or returns a commit id or nothing.
\<close>

record import_env =
  ie_checks :: "exn option"
  ie_wlock :: "exn option"
  ie_lock :: "exn option"
  ie_open :: "string \<Rightarrow> exn option"
  ie_hunks :: "string \<Rightarrow> (exn + string option) list"

text \<open>The loop over the hunks of a patch; the result says whether a hunk had a patch.\<close>

fun import_hunks ::
  "string \<Rightarrow> nat \<Rightarrow> bool \<Rightarrow> (exn + string option) list \<Rightarrow> event list \<times> (exn + bool)" where
  "import_hunks p i haspatch [] = ([], Inr haspatch)"
| "import_hunks p i haspatch (h # hs) =
     (case h of
        Inl e \<Rightarrow> ([TryOne p i], Inl e)
      | Inr commitid \<Rightarrow>
          (let (evs, r) = import_hunks p (Suc i) (haspatch \<or> truthy commitid) hs
           in (TryOne p i # evs, r)))"

text \<open>The loop over the patches.\<close>

fun import_patches :: "import_env \<Rightarrow> string list \<Rightarrow> event list \<times> exn option" where
  "import_patches env [] = ([], None)"
| "import_patches env (p # ps) =
     (case (if p = ''-'' then None else ie_open env p) of
        Some e \<Rightarrow> ([OpenPatch p], Some e)
      | None \<Rightarrow>
          (case import_hunks p 0 False (ie_hunks env p) of
             (evs, Inl e) \<Rightarrow> (OpenPatch p # evs, Some e)
           | (evs, Inr haspatch) \<Rightarrow>
               if \<not> haspatch then (OpenPatch p # evs, Some (Abort ''no diffs found'' None))
               else (let (evs', r) = import_patches env ps in (OpenPatch p # evs @ evs', r))))"

text \<open>\<open>import_\<close>, with \<open>base\<close> empty.\<close>

definition import_cmd :: "import_env \<Rightarrow> string list \<Rightarrow> event list \<times> exn option" where
  "import_cmd env patches =
     (case ie_checks env of
        Some e \<Rightarrow> ([], Some e)
      | None \<Rightarrow>
          (case ie_wlock env of
             Some e \<Rightarrow> ([], Some e)
           | None \<Rightarrow>
               (case ie_lock env of
                  Some e \<Rightarrow> ([AcquireWlock, ReleaseWlock], Some e)
                | None \<Rightarrow>
                    (let (evs, r) = import_patches env patches
                     in ([AcquireWlock, AcquireLock] @ evs @ [ReleaseLock, ReleaseWlock],
                         r)))))"

text \<open>
  The properties of a sequence of events, from the locks held at its start (the
  working-directory lock and the store lock). \<open>locks_after\<close> gives the locks held at
  its end. \<open>wlock_first\<close>: the store lock is only taken while the working-directory
  lock is held. \<open>store_first\<close>: the working-directory lock is only taken while the
  store lock is held. \<open>guarded\<close>: a truncation happens only under both locks and
  after the backup of the same node has been written.
\<close>

fun locks_after :: "event list \<Rightarrow> bool \<times> bool \<Rightarrow> bool \<times> bool" where
  "locks_after [] s = s"
| "locks_after (AcquireWlock # es) (w, l) = locks_after es (True, l)"
| "locks_after (AcquireLock # es) (w, l) = locks_after es (w, True)"
| "locks_after (ReleaseWlock # es) (w, l) = locks_after es (False, l)"
| "locks_after (ReleaseLock # es) (w, l) = locks_after es (w, False)"
| "locks_after (e # es) s = locks_after es s"

fun wlock_first :: "event list \<Rightarrow> bool \<times> bool \<Rightarrow> bool" where
  "wlock_first [] s = True"
| "wlock_first (e # es) s =
     ((e = AcquireLock \<longrightarrow> fst s) \<and> wlock_first es (locks_after [e] s))"

fun store_first :: "event list \<Rightarrow> bool \<times> bool \<Rightarrow> bool" where
  "store_first [] s = True"
| "store_first (e # es) s =
     ((e = AcquireWlock \<longrightarrow> snd s) \<and> store_first es (locks_after [e] s))"

fun guarded :: "event list \<Rightarrow> bool \<times> bool \<Rightarrow> node list \<Rightarrow> bool" where
  "guarded [] s saved = True"
| "guarded (Truncate n # es) s saved =
     (fst s \<and> snd s \<and> n \<in> set saved \<and> guarded es s saved)"
| "guarded (WriteBackup n # es) s saved = guarded es s (n # saved)"
| "guarded (e # es) s saved = guarded es (locks_after [e] s) saved"

text \<open>
  Modelled from the spec: the lock itself (\<open>mercurial/lock.py\<close>, \<open>repo.lock\<close> and
  \<open>repo.wlock\<close> of \<open>localrepo.py\<close>) is not among the sources. A lock is a file that
  is there exactly while the lock is held and names its owner; taking it succeeds only
  when no one holds it; a process releases the locks it holds.
\<close>

datatype lockname = WorkingDirLock | StoreLock

datatype lock_action = TryLock lockname | Release lockname

record lock_state =
  lockfile :: "lockname \<Rightarrow> nat option"
  holds :: "nat \<Rightarrow> lockname \<Rightarrow> bool"

definition lock_step :: "nat \<times> lock_action \<Rightarrow> lock_state \<Rightarrow> lock_state" where
  "lock_step pa st =
     (case pa of
        (p, TryLock l) \<Rightarrow>
          if lockfile st l = None
          then st\<lparr>lockfile := (lockfile st)(l := Some p),
                  holds := (holds st)(p := (holds st p)(l := True))\<rparr>
          else st
      | (p, Release l) \<Rightarrow>
          if holds st p l
          then st\<lparr>lockfile := (lockfile st)(l := None),
                  holds := (holds st)(p := (holds st p)(l := False))\<rparr>
          else st)"

definition lock_init :: lock_state where
  "lock_init = \<lparr>lockfile = (\<lambda>l. None), holds = (\<lambda>p l. False)\<rparr>"

definition lock_run :: "(nat \<times> lock_action) list \<Rightarrow> lock_state" where
  "lock_run sched = fold lock_step sched lock_init"


text \<open>The lock file names a process exactly when that process holds the lock.\<close>

definition lock_inv :: "lock_state \<Rightarrow> bool" where
  "lock_inv st = (\<forall>p l. holds st p l \<longleftrightarrow> lockfile st l = Some p)"

section \<open>Heads: the changelog and commands.heads\<close>

text \<open>
  An entry of the changelog as \<open>heads\<close> needs it: the revisions of the two parents
  (\<open>-1\<close> for the null revision), the branch, and whether the changeset closes its
  branch (\<open>extra['close']\<close>). The revision of an entry is its index.
\<close>

record centry =
  ce_p1 :: int
  ce_p2 :: int
  ce_branch :: string
  ce_close :: bool

definition has_child :: "centry list \<Rightarrow> nat \<Rightarrow> bool" where
  "has_child cl r = list_ex (\<lambda>e. ce_p1 e = int r \<or> ce_p2 e = int r) cl"

text \<open>
  Modelled from the spec: \<open>heads\<close> of the changelog (\<open>mercurial/revlog.py\<close>,
  \<open>localrepo.heads\<close>) is not among the sources. The spec has it as the revisions
  with no child, ordered by descending revision.
\<close>

definition heads :: "centry list \<Rightarrow> nat list" where
  "heads cl = filter (\<lambda>r. \<not> has_child cl r) (rev [0..<length cl])"

text \<open>
  The repository as the command reads it: the changelog, \<open>branchmap()\<close> as the
  branches with the revisions of their heads, in the order of \<open>iteritems\<close>, the
  revision a name looks up to (\<open>repo.lookup\<close>, \<open>repo[name]\<close>), and
  \<open>changelog.descendants\<close>.
\<close>

record hrepo =
  changelog :: "centry list"
  branchmap :: "(string \<times> nat list) list"
  hlookup :: "string \<Rightarrow> exn + nat"
  hdescendants :: "nat \<Rightarrow> nat list"

record heads_opts =
  hopt_rev :: "string option"
  hopt_topo :: bool
  hopt_closed :: bool
  hopt_active :: bool

text \<open>
  \<open>repo.heads(start)\<close>: with a start, by the help text of the command, the heads
  that descend from it.
\<close>

definition heads_from :: "hrepo \<Rightarrow> nat option \<Rightarrow> nat list" where
  "heads_from repo start =
     (case start of
        None \<Rightarrow> heads (changelog repo)
      | Some s \<Rightarrow> filter (\<lambda>h. h \<in> set (s # hdescendants repo s)) (heads (changelog repo)))"

text \<open>\<open>repo[h]\<close>: the revision with its entry; a revision that is not there raises.\<close>

definition ctx_of :: "hrepo \<Rightarrow> nat \<Rightarrow> exn + (nat \<times> centry)" where
  "ctx_of repo r =
     (if r < length (changelog repo) then Inr (r, changelog repo ! r)
      else Inl (RepoError ''unknown revision''))"

fun map_exn :: "('a \<Rightarrow> exn + 'b) \<Rightarrow> 'a list \<Rightarrow> exn + 'b list" where
  "map_exn f [] = Inr []"
| "map_exn f (x # xs) =
     (case f x of
        Inl e \<Rightarrow> Inl e
      | Inr y \<Rightarrow> (case map_exn f xs of Inl e \<Rightarrow> Inl e | Inr ys \<Rightarrow> Inr (y # ys)))"

text \<open>The branch of \<open>repo[br]\<close> for a name given on the command line.\<close>

definition branch_named :: "hrepo \<Rightarrow> string \<Rightarrow> exn + string" where
  "branch_named repo br =
     (case hlookup repo br of
        Inl e \<Rightarrow> Inl e
      | Inr r \<Rightarrow> (case ctx_of repo r of Inl e \<Rightarrow> Inl e | Inr c \<Rightarrow> Inr (ce_branch (snd c))))"

text \<open>
  What the command takes from Python: the operator \<open>%\<close> on a format and one
  string, which raises when the format does not fit, and the ranking that orders a set
  of strings.
\<close>

record py_runtime =
  py_format :: "string \<Rightarrow> string \<Rightarrow> exn + string"
  str_rank :: "string \<Rightarrow> nat"

text \<open>
  \<open>heads\<close>, the command: what goes to \<open>ui.warn\<close>, the revisions shown, in order,
  and the value returned. The warning is formatted twice: the start revision is put
  into the message, and the message with it is the format for the branches, which are
  joined in the order of the set \<open>branches - haveheads\<close>.
\<close>

definition heads_cmd ::
  "py_runtime \<Rightarrow> hrepo \<Rightarrow> string list \<Rightarrow> heads_opts
     \<Rightarrow> exn + (string list \<times> nat list \<times> pyval)" where
  "heads_cmd py repo branchrevs opts =
     (case (if truthy (hopt_rev opts)
            then (case hlookup repo (the (hopt_rev opts)) of
                    Inl e \<Rightarrow> Inl e | Inr r \<Rightarrow> Inr (Some r))
            else Inr None) of
        Inl e \<Rightarrow> Inl e
      | Inr start \<Rightarrow>
     (case map_exn (ctx_of repo)
             (if hopt_topo opts then heads_from repo start
              else concat (map (\<lambda>(b, ls).
                     case start of
                       None \<Rightarrow> ls
                     | Some s \<Rightarrow> filter (\<lambda>h. h \<in> set (hdescendants repo s @ [s])) ls)
                   (branchmap repo))) of
        Inl e \<Rightarrow> Inl e
      | Inr heads0 \<Rightarrow>
     (case map_exn (branch_named repo) branchrevs of
        Inl e \<Rightarrow> Inl e
      | Inr branches \<Rightarrow>
          (let heads1 = (if branchrevs \<noteq> []
                         then filter (\<lambda>h. ce_branch (snd h) \<in> set branches) heads0
                         else heads0);
               heads2 = (if \<not> hopt_closed opts
                         then filter (\<lambda>h. \<not> ce_close (snd h)) heads1
                         else heads1);
               heads3 = (if hopt_active opts \<and> branchrevs \<noteq> []
                         then filter (\<lambda>h. fst h \<in> set (heads_from repo start)) heads2
                         else heads2);
               headless = set_list (str_rank py)
                            (filter (\<lambda>b. b \<notin> set (map (\<lambda>h. ce_branch (snd h)) heads3))
                               branches);
               msg = ''no open branch heads found on branches %s''
                     @ (if truthy (hopt_rev opts)
                        then '' (started at '' @ the (hopt_rev opts) @ '')''
                        else [])
           in case (if branchrevs \<noteq> [] \<and> headless \<noteq> []
                    then (case py_format py (msg @ newline) (join_with '', '' headless) of
                            Inl e \<Rightarrow> Inl e | Inr w \<Rightarrow> Inr [w])
                    else Inr []) of
                Inl e \<Rightarrow> Inl e
              | Inr warn \<Rightarrow>
                  if heads3 = [] then Inr (warn, [], PyInt 1)
                  else Inr (warn, map fst (sort_key (\<lambda>h. - int (fst h)) heads3),
                            PyNone)))))"

section \<open>Properties of commands.merge\<close>

lemma length_two_cases: "length xs = 2 \<Longrightarrow> \<exists>a b. xs = [a, b]"
  by (cases xs; cases "tl xs"; auto)

lemma default_target_cases:
  assumes "\<forall>n\<in>set (branchheads repo (wbranch repo)). n \<noteq> []"
  shows "(let bheads = branchheads repo (wbranch repo);
              parent = fst (dirstate_parents repo)
          in if length bheads = 2 \<and> parent \<in> set bheads
             then default_target repo = Inr (if parent = bheads ! 0 then bheads ! 1 else bheads ! 0)
             else \<exists>m. default_target repo = Inl (Abort m None))"
proof (cases "length (branchheads repo (wbranch repo)) = 2")
  case True
  then obtain a b where ab: "branchheads repo (wbranch repo) = [a, b]"
    using length_two_cases by blast
  with assms have "b \<noteq> []" by simp
  with ab show ?thesis
    by (simp add: default_target_def pick_other_def Let_def)
next
  case False
  then consider "branchheads repo (wbranch repo) = []"
    | "length (branchheads repo (wbranch repo)) = 1"
    | "length (branchheads repo (wbranch repo)) > 2"
    by (cases "length (branchheads repo (wbranch repo))") force+
  then show ?thesis
  proof cases
    case 1
    then show ?thesis by (simp add: default_target_def Let_def)
  next
    case 2
    then show ?thesis by (simp add: default_target_def Let_def)
  next
    case 3
    then show ?thesis by (simp add: default_target_def Let_def)
  qed
qed

text \<open>
  C10. With no revision given (neither the positional argument nor \<open>--rev\<close>),
  \<open>merge\<close> goes on to a merge (or its preview) exactly when the branch of the working
  directory has two heads and the first parent of the working directory is one of them,
  and the target is then the other head. In every other case (no head, one head, three
  or more heads, parent not a head) the command raises \<open>Abort\<close> before it has called
  anything that writes. Nodes are 20-byte strings, hence not empty.
\<close>

theorem merge_no_rev:
  assumes "\<not> truthy node" and "\<not> truthy (opt_rev opts)"
    and "\<forall>n\<in>set (branchheads repo (wbranch repo)). n \<noteq> []"
  shows "(let bheads = branchheads repo (wbranch repo);
              parent = fst (dirstate_parents repo)
          in if length bheads = 2 \<and> parent \<in> set bheads
             then \<exists>act. merge_cmd repo node opts = Inr act
                    \<and> target act = (if parent = bheads ! 0 then bheads ! 1 else bheads ! 0)
             else \<exists>m. merge_cmd repo node opts = Inl (Abort m None))"
proof -
  have d: "merge_cmd repo node opts =
      (case default_target repo of Inl e \<Rightarrow> Inl e
       | Inr n \<Rightarrow> if opt_preview opts then Inr (ShowPreview n)
                  else Inr (HgMerge n (opt_force opts)))"
    using assms(1,2) by (auto simp: merge_cmd_def truthy_def Let_def split: option.splits)
  show ?thesis
    using default_target_cases [OF assms(3)] unfolding d Let_def
    by (auto split: if_splits)
qed

theorem merge_no_rev_witness:
  "\<not> truthy None
   \<and> \<not> truthy (opt_rev \<lparr>opt_rev = None, opt_preview = False, opt_force = False\<rparr>)
   \<and> ''aa'' \<noteq> [] \<and> ''bb'' \<noteq> []
   \<and> merge_cmd \<lparr>wbranch = ''default'', branchheads = (\<lambda>b. [''aa'', ''bb'']),
          dirstate_parents = (''bb'', ''cc''), repo_heads = [''aa'', ''bb''],
          lookup_branch = (\<lambda>b. ''bb'')\<rparr>
        None \<lparr>opt_rev = None, opt_preview = False, opt_force = False\<rparr>
      = Inr (HgMerge ''aa'' False)"
  using merge_no_rev [of None "\<lparr>opt_rev = None, opt_preview = False, opt_force = False\<rparr>"
      "\<lparr>wbranch = ''default'', branchheads = (\<lambda>b. [''aa'', ''bb'']),
        dirstate_parents = (''bb'', ''cc''), repo_heads = [''aa'', ''bb''],
        lookup_branch = (\<lambda>b. ''bb'')\<rparr>"]
  by (simp add: truthy_def merge_cmd_def default_target_def pick_other_def)

section \<open>Properties of bundle and pushkey\<close>

lemma lower_bzip2: "lower ''bzip2'' = ''bzip2''"
  by (simp add: lower_def lower_char_def)

text \<open>
  C7, as the code has it. Once \<open>bundle\<close> has found changes to write (and
  \<open>--base\<close> is not combined with a destination), the type names exactly one
  wrapper: \<open>none\<close>, \<open>bzip2\<close> and \<open>gzip\<close>, compared without regard to
  case, give \<open>HG10UN\<close>, \<open>HG10BZ\<close> and \<open>HG10GZ\<close>, a missing type gives
  \<open>HG10BZ\<close>, and every other type aborts. The three wrappers differ, each is the
  four bytes \<open>HG10\<close> followed by two bytes for the compression.
\<close>

theorem bundle_wrapper:
  assumes "outgoing \<noteq> []"
    and "\<not> ((if bopt_all opts then [''null''] else bopt_base opts) \<noteq> [] \<and> truthy dest)"
    and "{''HG10UN'', ''HG10BZ'', ''HG10GZ''} \<subseteq> set bundletypes"
  shows "(let t = lower (case bopt_type opts of None \<Rightarrow> ''bzip2'' | Some t \<Rightarrow> t)
          in bundle_cmd bundletypes opts dest outgoing =
               (if t = ''none'' then Inr (WriteBundle ''HG10UN'')
                else if t = ''bzip2'' then Inr (WriteBundle ''HG10BZ'')
                else if t = ''gzip'' then Inr (WriteBundle ''HG10GZ'')
                else Inl (Abort ''unknown bundle type specified with --type'' None)))
     \<and> (bopt_type opts = None \<longrightarrow>
          bundle_cmd bundletypes opts dest outgoing = Inr (WriteBundle ''HG10BZ''))
     \<and> (\<forall>w. bundle_cmd bundletypes opts dest outgoing = Inr (WriteBundle w) \<longrightarrow>
            w \<in> {''HG10UN'', ''HG10BZ'', ''HG10GZ''} \<and> length w = 6 \<and> take 4 w = ''HG10'')
     \<and> distinct (map snd btypes)"
proof -
  let ?t = "lower (case bopt_type opts of None \<Rightarrow> ''bzip2'' | Some t \<Rightarrow> t)"
  have m: "map_of btypes ?t =
      (if ?t = ''none'' then Some ''HG10UN'' else if ?t = ''bzip2'' then Some ''HG10BZ''
       else if ?t = ''gzip'' then Some ''HG10GZ'' else None)"
    by (simp add: btypes_def)
  have a: "bundle_cmd bundletypes opts dest outgoing =
               (if ?t = ''none'' then Inr (WriteBundle ''HG10UN'')
                else if ?t = ''bzip2'' then Inr (WriteBundle ''HG10BZ'')
                else if ?t = ''gzip'' then Inr (WriteBundle ''HG10GZ'')
                else Inl (Abort ''unknown bundle type specified with --type'' None))"
    using assms unfolding bundle_cmd_def Let_def m by auto
  have b: "bopt_type opts = None \<longrightarrow>
          bundle_cmd bundletypes opts dest outgoing = Inr (WriteBundle ''HG10BZ'')"
    unfolding a by (simp add: lower_bzip2)
  have c: "\<forall>w. bundle_cmd bundletypes opts dest outgoing = Inr (WriteBundle w) \<longrightarrow>
            w \<in> {''HG10UN'', ''HG10BZ'', ''HG10GZ''} \<and> length w = 6 \<and> take 4 w = ''HG10''"
    unfolding a by (auto split: if_splits)
  have d: "distinct (map snd btypes)"
    by (simp add: btypes_def)
  from a b c d show ?thesis unfolding Let_def by blast
qed

theorem bundle_wrapper_witness:
  "[''0a''] \<noteq> ([] :: node list)
   \<and> \<not> ((if bopt_all \<lparr>bopt_all = False, bopt_base = [], bopt_type = Some ''GZip''\<rparr>
           then [''null'']
           else bopt_base \<lparr>bopt_all = False, bopt_base = [], bopt_type = Some ''GZip''\<rparr>) \<noteq> []
          \<and> truthy (Some ''../other''))
   \<and> {''HG10UN'', ''HG10BZ'', ''HG10GZ''} \<subseteq> set ['''', ''HG10UN'', ''HG10BZ'', ''HG10GZ'']
   \<and> bundle_cmd ['''', ''HG10UN'', ''HG10BZ'', ''HG10GZ'']
        \<lparr>bopt_all = False, bopt_base = [], bopt_type = Some ''GZip''\<rparr> (Some ''../other'')
        [''0a''] = Inr (WriteBundle ''HG10GZ'')"
  using bundle_wrapper [of "[''0a'']" "\<lparr>bopt_all = False, bopt_base = [], bopt_type = Some ''GZip''\<rparr>"
      "Some ''../other''" "['''', ''HG10UN'', ''HG10BZ'', ''HG10GZ'']"]
  by (simp add: lower_def lower_char_def)

text \<open>
  The claim as the spec states it fails: with nothing to bundle the command says
  \<open>no changes found\<close> and returns 1 before it looks at the type, so an unknown
  type does not abort.
\<close>

theorem bundle_abort_counterexample:
  "bundle_cmd ['''', ''HG10UN'', ''HG10BZ'', ''HG10GZ'']
     \<lparr>bopt_all = False, bopt_base = [], bopt_type = Some ''zip''\<rparr> None [] = Inr NoChanges"
  by (simp add: bundle_cmd_def truthy_def)

text \<open>
  C8. \<open>push\<close> stores \<open>new\<close> exactly when the value stored is \<open>old\<close> and
  returns whether it did; \<open>debugpushkey\<close> with a key, \<open>old\<close> and \<open>new\<close>
  prints that answer and returns its negation, so that the exit status is 0 exactly
  when the push succeeded.
\<close>

theorem pushkey_cas:
  "(snd (pushkey_push st ns key old new) \<longleftrightarrow> st (ns, key) = old)
   \<and> fst (pushkey_push st ns key old new)
       = (if st (ns, key) = old then st((ns, key) := new) else st)
   \<and> (\<exists>tgt' out ret.
         debugpushkey escape \<lparr>keys = st, listkeys = lk\<rparr> ns [key, old, new]
           = Inr (tgt', out, ret)
         \<and> keys tgt' = fst (pushkey_push st ns key old new)
         \<and> out = [str_bool (st (ns, key) = old) @ newline]
         \<and> (sys_exit ret = 0 \<longleftrightarrow> st (ns, key) = old)
         \<and> exit_status env args (Inr ret) = Inr (if st (ns, key) = old then 0 else 1))"
  by (simp add: pushkey_push_def debugpushkey_def sys_exit_def exit_status_def runcatch_def Let_def)

theorem pushkey_cas_witness:
  "snd (pushkey_push ((\<lambda>k. [])((''bookmarks'', ''stable'') := ''0a'')) ''bookmarks'' ''stable''
         ''0a'' ''1b'')
   \<and> fst (pushkey_push ((\<lambda>k. [])((''bookmarks'', ''stable'') := ''0a'')) ''bookmarks''
         ''stable'' ''0a'' ''1b'') (''bookmarks'', ''stable'') = ''1b''
   \<and> \<not> snd (pushkey_push ((\<lambda>k. [])((''bookmarks'', ''stable'') := ''0a'')) ''bookmarks''
         ''stable'' ''ff'' ''1b'')
   \<and> fst (pushkey_push ((\<lambda>k. [])((''bookmarks'', ''stable'') := ''0a'')) ''bookmarks''
         ''stable'' ''ff'' ''1b'') (''bookmarks'', ''stable'') = ''0a''"
  using pushkey_cas [of "(\<lambda>k. [])((''bookmarks'', ''stable'') := ''0a'')" "''bookmarks''"
      "''stable''" "''0a''" "''1b''"]
    pushkey_cas [of "(\<lambda>k. [])((''bookmarks'', ''stable'') := ''0a'')" "''bookmarks''"
      "''stable''" "''ff''" "''1b''"]
  by simp

section \<open>Properties of the acl hook\<close>

lemma check_files_ok:
  "snd (check_files user a d ctx fs) = Inr () \<longleftrightarrow> (\<forall>f\<in>set fs. \<not> hits d f \<and> \<not> misses a f)"
  by (induction fs) auto

lemma check_files_err:
  "snd (check_files user a d ctx fs) \<noteq> Inr () \<Longrightarrow>
     snd (check_files user a d ctx fs) = Inl (Abort (''acl: access denied for changeset '' @ ctx) None)"
  by (induction fs) auto

lemma check_revs_ok:
  "snd (check_revs user ls cs) = Inr () \<longleftrightarrow> (\<forall>c\<in>set cs. passes_checks ls c)"
proof (induction cs)
  case Nil
  show ?case by simp
next
  case (Cons c cs)
  show ?case
  proof (cases "snd (check_files user (allow ls) (deny ls) (cs_id c) (cs_files c)) = Inr ()")
    case True
    then show ?thesis
      using Cons check_files_ok [of user "allow ls" "deny ls" "cs_id c" "cs_files c"]
      by (auto simp: passes_checks_def Let_def split: prod.splits sum.splits)
  next
    case False
    then show ?thesis
      using check_files_ok [of user "allow ls" "deny ls" "cs_id c" "cs_files c"]
      by (auto simp: passes_checks_def Let_def split: prod.splits sum.splits)
  qed
qed

lemma check_revs_first:
  assumes "\<forall>c'\<in>set pre. passes_checks ls c'" and "\<not> passes_checks ls c"
  shows "snd (check_revs user ls (pre @ c # post)) =
     Inl (Abort (if hits (denybranches ls) (cs_branch c) then msg_branch_denied user c
                 else if misses (allowbranches ls) (cs_branch c) then msg_branch_not_allowed user c
                 else ''acl: access denied for changeset '' @ cs_id c) None)"
  using assms(1)
proof (induction pre)
  case Nil
  have "hits (denybranches ls) (cs_branch c) \<or> misses (allowbranches ls) (cs_branch c)
     \<or> snd (check_files user (allow ls) (deny ls) (cs_id c) (cs_files c)) \<noteq> Inr ()"
    using assms(2) check_files_ok [of user "allow ls" "deny ls" "cs_id c" "cs_files c"]
    by (auto simp: passes_checks_def)
  then show ?case
    using check_files_err [of user "allow ls" "deny ls" "cs_id c" "cs_files c"]
    by (auto simp: Let_def split: prod.splits sum.splits)
next
  case (Cons p pre)
  then have ok: "passes_checks ls p" and rest: "\<forall>c'\<in>set pre. passes_checks ls c'" by auto
  from ok have f: "snd (check_files user (allow ls) (deny ls) (cs_id p) (cs_files p)) = Inr ()"
    using check_files_ok [of user "allow ls" "deny ls" "cs_id p" "cs_files p"]
    by (simp add: passes_checks_def)
  from ok f Cons.IH [OF rest] show ?case
    by (auto simp: passes_checks_def Let_def split: prod.splits sum.splits)
qed


lemma hook_checked:
  assumes "hooktype \<in> set [''pretxnchangegroup'', ''pretxncommit'']"
    and "\<not> skipped ui hooktype source"
    and "snd (build_lists ui m (hook_user ui source url_user)) = Inr ls"
  shows "snd (hook ui m hooktype source url_user incoming) =
     (case snd (check_revs (hook_user ui source url_user) ls incoming) of
        Inl e \<Rightarrow> Inl e | Inr u \<Rightarrow> Inr Checked)"
  using assms by (auto simp: hook_def Let_def split: prod.splits sum.splits)

lemma buildmatch_absent:
  "section_items ui key = None \<Longrightarrow> snd (buildmatch ui r user key) = Inr None"
  by (simp add: buildmatch_def)

lemma buildmatch_branches:
  assumes "section_items ui key = Some items" and "snd (user_pats ui user items) = Inr pats"
  shows "\<exists>p. snd (buildmatch ui None user key) = Inr (Some p)
           \<and> (\<forall>b. p b \<longleftrightarrow> (''*'' \<in> set pats \<or> b \<in> set pats))"
  using assms by (auto simp: buildmatch_def split: prod.splits sum.splits)

text \<open>
  C9, as the code has it. For a hook call that is not skipped (hook type
  \<open>pretxncommit\<close>, or \<open>pretxnchangegroup\<close> with a source listed in
  \<open>acl.sources\<close>) and whose four lists could be built: the hook lets the changesets
  through exactly when every one of them passes the four checks with every file; it
  aborts at the first changeset that does not, with the message of the first check that
  fails in the order denied branches, allowed branches, paths; on a file the list of
  denied paths is asked before the list of allowed paths; an entry \<open>*\<close> for the
  users matches every user; a section that is absent checks nothing, and a list of
  branches matches a branch when it holds \<open>*\<close> or the branch.
\<close>

theorem acl_hook_order:
  assumes "hooktype \<in> set [''pretxnchangegroup'', ''pretxncommit'']"
    and "\<not> skipped ui hooktype source"
    and "snd (build_lists ui m (hook_user ui source url_user)) = Inr ls"
  shows "(snd (hook ui m hooktype source url_user incoming) = Inr Checked
            \<longleftrightarrow> (\<forall>c\<in>set incoming. passes_checks ls c))
    \<and> snd (hook ui m hooktype source url_user incoming) \<noteq> Inr Skipped
    \<and> (\<forall>pre c post.
          incoming = pre @ c # post \<and> (\<forall>c'\<in>set pre. passes_checks ls c')
            \<and> \<not> passes_checks ls c \<longrightarrow>
          snd (hook ui m hooktype source url_user incoming) =
            Inl (Abort
              (if hits (denybranches ls) (cs_branch c)
               then msg_branch_denied (hook_user ui source url_user) c
               else if misses (allowbranches ls) (cs_branch c)
               then msg_branch_not_allowed (hook_user ui source url_user) c
               else ''acl: access denied for changeset '' @ cs_id c) None))
    \<and> (\<forall>user ctx f fs. hits (deny ls) f \<longrightarrow>
          fst (check_files user (allow ls) (deny ls) ctx (f # fs))
            = [''acl: user '' @ user @ '' denied on '' @ f @ newline])
    \<and> (\<forall>user. usermatch ui user ''*'' = ([], Inr True))
    \<and> (\<forall>key r user. section_items ui key = None \<longrightarrow>
          snd (buildmatch ui r user key) = Inr None)
    \<and> (\<forall>key user items pats.
          section_items ui key = Some items \<and> snd (user_pats ui user items) = Inr pats \<longrightarrow>
          (\<exists>p. snd (buildmatch ui None user key) = Inr (Some p)
             \<and> (\<forall>b. p b \<longleftrightarrow> (''*'' \<in> set pats \<or> b \<in> set pats))))"
proof -
  let ?u = "hook_user ui source url_user"
  have h: "snd (hook ui m hooktype source url_user incoming) =
     (case snd (check_revs ?u ls incoming) of Inl e \<Rightarrow> Inl e | Inr u \<Rightarrow> Inr Checked)"
    by (rule hook_checked [OF assms])
  have a: "snd (hook ui m hooktype source url_user incoming) = Inr Checked
            \<longleftrightarrow> (\<forall>c\<in>set incoming. passes_checks ls c)"
    unfolding h using check_revs_ok [of ?u ls incoming] by (auto split: sum.splits)
  have b: "snd (hook ui m hooktype source url_user incoming) \<noteq> Inr Skipped"
    unfolding h by (auto split: sum.splits)
  have c: "\<forall>pre c post.
          incoming = pre @ c # post \<and> (\<forall>c'\<in>set pre. passes_checks ls c')
            \<and> \<not> passes_checks ls c \<longrightarrow>
          snd (hook ui m hooktype source url_user incoming) =
            Inl (Abort
              (if hits (denybranches ls) (cs_branch c)
               then msg_branch_denied ?u c
               else if misses (allowbranches ls) (cs_branch c)
               then msg_branch_not_allowed ?u c
               else ''acl: access denied for changeset '' @ cs_id c) None)"
    unfolding h using check_revs_first [of _ ls _ ?u] by (auto split: sum.splits)
  have d: "\<forall>user ctx f fs. hits (deny ls) f \<longrightarrow>
          fst (check_files user (allow ls) (deny ls) ctx (f # fs))
            = [''acl: user '' @ user @ '' denied on '' @ f @ newline]"
    by simp
  have e: "\<forall>user. usermatch ui user ''*'' = ([], Inr True)"
    by (simp add: usermatch_def)
  have f: "\<forall>key r user. section_items ui key = None \<longrightarrow>
          snd (buildmatch ui r user key) = Inr None"
    by (simp add: buildmatch_absent)
  have g: "\<forall>key user items pats.
          section_items ui key = Some items \<and> snd (user_pats ui user items) = Inr pats \<longrightarrow>
          (\<exists>p. snd (buildmatch ui None user key) = Inr (Some p)
             \<and> (\<forall>b. p b \<longleftrightarrow> (''*'' \<in> set pats \<or> b \<in> set pats)))"
    using buildmatch_branches by blast
  from a b c d e f g show ?thesis by blast
qed



theorem acl_hook_order_witness:
  "''pretxncommit'' \<in> set [''pretxnchangegroup'', ''pretxncommit'']
   \<and> \<not> skipped \<lparr>section_items = (\<lambda>k. if k = ''acl.deny.branches'' then
      Some [(''frozen'', ''*'')] else None), acl_sources = None, group_cfg = (\<lambda>g. []),
      os_group = (\<lambda>g. None), getuser = ''alice''\<rparr> ''pretxncommit'' None
   \<and> snd (build_lists \<lparr>section_items = (\<lambda>k. if k = ''acl.deny.branches'' then
      Some [(''frozen'', ''*'')] else None), acl_sources = None, group_cfg = (\<lambda>g. []),
      os_group = (\<lambda>g. None), getuser = ''alice''\<rparr> \<lparr>match_pats =
      (\<lambda>ps f. f \<in> set ps), match_exact_none = (\<lambda>f. False)\<rparr> (hook_user
      \<lparr>section_items = (\<lambda>k. if k = ''acl.deny.branches'' then Some [(''frozen'',
      ''*'')] else None), acl_sources = None, group_cfg = (\<lambda>g. []), os_group =
      (\<lambda>g. None), getuser = ''alice''\<rparr> None None)) = Inr \<lparr>allowbranches =
      None, denybranches = Some (\<lambda>b. ''*'' \<in> set [''frozen''] \<or> b \<in> set
      [''frozen'']), allow = None, deny = None\<rparr>
   \<and> passes_checks \<lparr>allowbranches = None, denybranches = Some (\<lambda>b. ''*''
      \<in> set [''frozen''] \<or> b \<in> set [''frozen'']), allow = None, deny = None\<rparr>
      \<lparr>cs_id = ''1a'', cs_branch = ''default'', cs_files = [''a.txt'']\<rparr>
   \<and> \<not> passes_checks \<lparr>allowbranches = None, denybranches = Some (\<lambda>b.
      ''*'' \<in> set [''frozen''] \<or> b \<in> set [''frozen'']), allow = None, deny =
      None\<rparr> \<lparr>cs_id = ''2b'', cs_branch = ''frozen'', cs_files = [''a.txt'']\<rparr>
   \<and> snd (hook \<lparr>section_items = (\<lambda>k. if k = ''acl.deny.branches'' then Some
      [(''frozen'', ''*'')] else None), acl_sources = None, group_cfg = (\<lambda>g. []),
      os_group = (\<lambda>g. None), getuser = ''alice''\<rparr> \<lparr>match_pats =
      (\<lambda>ps f. f \<in> set ps), match_exact_none = (\<lambda>f. False)\<rparr>
      ''pretxncommit'' None None [\<lparr>cs_id = ''1a'', cs_branch = ''default'', cs_files =
      [''a.txt'']\<rparr>]) = Inr Checked
   \<and> snd (hook \<lparr>section_items = (\<lambda>k. if k = ''acl.deny.branches'' then Some
      [(''frozen'', ''*'')] else None), acl_sources = None, group_cfg = (\<lambda>g. []),
      os_group = (\<lambda>g. None), getuser = ''alice''\<rparr> \<lparr>match_pats =
      (\<lambda>ps f. f \<in> set ps), match_exact_none = (\<lambda>f. False)\<rparr>
      ''pretxncommit'' None None ([\<lparr>cs_id = ''1a'', cs_branch = ''default'', cs_files =
      [''a.txt'']\<rparr>] @ \<lparr>cs_id = ''2b'', cs_branch = ''frozen'', cs_files =
      [''a.txt'']\<rparr> # [\<lparr>cs_id = ''1a'', cs_branch = ''default'', cs_files =
      [''a.txt'']\<rparr>]))
       = Inl (Abort (msg_branch_denied ''alice'' \<lparr>cs_id = ''2b'', cs_branch = ''frozen'',
      cs_files = [''a.txt'']\<rparr>) None)"
proof -
  have s: "\<not> skipped \<lparr>section_items = (\<lambda>k. if k = ''acl.deny.branches'' then
      Some [(''frozen'', ''*'')] else None), acl_sources = None, group_cfg = (\<lambda>g. []),
      os_group = (\<lambda>g. None), getuser = ''alice''\<rparr> ''pretxncommit'' None"
    by (simp add: skipped_def)
  have u: "hook_user \<lparr>section_items = (\<lambda>k. if k = ''acl.deny.branches'' then Some
      [(''frozen'', ''*'')] else None), acl_sources = None, group_cfg = (\<lambda>g. []),
      os_group = (\<lambda>g. None), getuser = ''alice''\<rparr> None None = ''alice''"
    by (simp add: hook_user_def)
  have b: "snd (build_lists \<lparr>section_items = (\<lambda>k. if k = ''acl.deny.branches''
      then Some [(''frozen'', ''*'')] else None), acl_sources = None, group_cfg = (\<lambda>g.
      []), os_group = (\<lambda>g. None), getuser = ''alice''\<rparr> \<lparr>match_pats =
      (\<lambda>ps f. f \<in> set ps), match_exact_none = (\<lambda>f. False)\<rparr> (hook_user
      \<lparr>section_items = (\<lambda>k. if k = ''acl.deny.branches'' then Some [(''frozen'',
      ''*'')] else None), acl_sources = None, group_cfg = (\<lambda>g. []), os_group =
      (\<lambda>g. None), getuser = ''alice''\<rparr> None None)) = Inr \<lparr>allowbranches =
      None, denybranches = Some (\<lambda>b. ''*'' \<in> set [''frozen''] \<or> b \<in> set
      [''frozen'']), allow = None, deny = None\<rparr>"
    unfolding u by (simp add: build_lists_def buildmatch_def usermatch_def)
  have p1: "passes_checks \<lparr>allowbranches = None, denybranches = Some (\<lambda>b. ''*''
      \<in> set [''frozen''] \<or> b \<in> set [''frozen'']), allow = None, deny = None\<rparr>
      \<lparr>cs_id = ''1a'', cs_branch = ''default'', cs_files = [''a.txt'']\<rparr>"
    by (simp add: passes_checks_def hits_def misses_def)
  have p2: "\<not> passes_checks \<lparr>allowbranches = None, denybranches = Some (\<lambda>b.
      ''*'' \<in> set [''frozen''] \<or> b \<in> set [''frozen'']), allow = None, deny =
      None\<rparr> \<lparr>cs_id = ''2b'', cs_branch = ''frozen'', cs_files = [''a.txt'']\<rparr>"
    by (simp add: passes_checks_def hits_def misses_def)
  have h: "''pretxncommit'' \<in> set [''pretxnchangegroup'', ''pretxncommit'']"
    by simp
  note t1 = acl_hook_order [OF h s b, of "[\<lparr>cs_id = ''1a'', cs_branch = ''default'',
      cs_files = [''a.txt'']\<rparr>]"]
  note t2 = acl_hook_order [OF h s b, of "[\<lparr>cs_id = ''1a'', cs_branch = ''default'',
      cs_files = [''a.txt'']\<rparr>] @ \<lparr>cs_id = ''2b'', cs_branch = ''frozen'', cs_files
      = [''a.txt'']\<rparr> # [\<lparr>cs_id = ''1a'', cs_branch = ''default'', cs_files =
      [''a.txt'']\<rparr>]"]
  have r1: "snd (hook \<lparr>section_items = (\<lambda>k. if k = ''acl.deny.branches'' then Some
      [(''frozen'', ''*'')] else None), acl_sources = None, group_cfg = (\<lambda>g. []),
      os_group = (\<lambda>g. None), getuser = ''alice''\<rparr> \<lparr>match_pats =
      (\<lambda>ps f. f \<in> set ps), match_exact_none = (\<lambda>f. False)\<rparr>
      ''pretxncommit'' None None [\<lparr>cs_id = ''1a'', cs_branch = ''default'', cs_files =
      [''a.txt'']\<rparr>]) = Inr Checked"
    using t1 p1 by simp
  have r2: "snd (hook \<lparr>section_items = (\<lambda>k. if k = ''acl.deny.branches'' then Some
      [(''frozen'', ''*'')] else None), acl_sources = None, group_cfg = (\<lambda>g. []),
      os_group = (\<lambda>g. None), getuser = ''alice''\<rparr> \<lparr>match_pats =
      (\<lambda>ps f. f \<in> set ps), match_exact_none = (\<lambda>f. False)\<rparr>
      ''pretxncommit'' None None ([\<lparr>cs_id = ''1a'', cs_branch = ''default'', cs_files =
      [''a.txt'']\<rparr>] @ \<lparr>cs_id = ''2b'', cs_branch = ''frozen'', cs_files =
      [''a.txt'']\<rparr> # [\<lparr>cs_id = ''1a'', cs_branch = ''default'', cs_files =
      [''a.txt'']\<rparr>]))
       = Inl (Abort (msg_branch_denied ''alice'' \<lparr>cs_id = ''2b'', cs_branch = ''frozen'',
      cs_files = [''a.txt'']\<rparr>) None)"
  proof -
    from t2 have "[\<lparr>cs_id = ''1a'', cs_branch = ''default'', cs_files =
      [''a.txt'']\<rparr>] @ \<lparr>cs_id = ''2b'', cs_branch = ''frozen'', cs_files =
      [''a.txt'']\<rparr> # [\<lparr>cs_id = ''1a'', cs_branch = ''default'', cs_files =
      [''a.txt'']\<rparr>] = [\<lparr>cs_id = ''1a'', cs_branch = ''default'', cs_files =
      [''a.txt'']\<rparr>] @ \<lparr>cs_id = ''2b'', cs_branch = ''frozen'', cs_files =
      [''a.txt'']\<rparr> # [\<lparr>cs_id = ''1a'', cs_branch = ''default'', cs_files =
      [''a.txt'']\<rparr>]
        \<and> (\<forall>c'\<in>set [\<lparr>cs_id = ''1a'', cs_branch = ''default'', cs_files =
      [''a.txt'']\<rparr>]. passes_checks \<lparr>allowbranches = None, denybranches = Some
      (\<lambda>b. ''*'' \<in> set [''frozen''] \<or> b \<in> set [''frozen'']), allow = None,
      deny = None\<rparr> c') \<and> \<not> passes_checks \<lparr>allowbranches = None,
      denybranches = Some (\<lambda>b. ''*'' \<in> set [''frozen''] \<or> b \<in> set
      [''frozen'']), allow = None, deny = None\<rparr> \<lparr>cs_id = ''2b'', cs_branch =
      ''frozen'', cs_files = [''a.txt'']\<rparr> \<longrightarrow>
      snd (hook \<lparr>section_items = (\<lambda>k. if k = ''acl.deny.branches'' then Some
      [(''frozen'', ''*'')] else None), acl_sources = None, group_cfg = (\<lambda>g. []),
      os_group = (\<lambda>g. None), getuser = ''alice''\<rparr> \<lparr>match_pats =
      (\<lambda>ps f. f \<in> set ps), match_exact_none = (\<lambda>f. False)\<rparr>
      ''pretxncommit'' None None ([\<lparr>cs_id = ''1a'', cs_branch = ''default'', cs_files =
      [''a.txt'']\<rparr>] @ \<lparr>cs_id = ''2b'', cs_branch = ''frozen'', cs_files =
      [''a.txt'']\<rparr> # [\<lparr>cs_id = ''1a'', cs_branch = ''default'', cs_files =
      [''a.txt'']\<rparr>])) =
        Inl (Abort
          (if hits (denybranches \<lparr>allowbranches = None, denybranches = Some (\<lambda>b.
      ''*'' \<in> set [''frozen''] \<or> b \<in> set [''frozen'']), allow = None, deny =
      None\<rparr>) (cs_branch \<lparr>cs_id = ''2b'', cs_branch = ''frozen'', cs_files =
      [''a.txt'']\<rparr>)
           then msg_branch_denied (hook_user \<lparr>section_items = (\<lambda>k. if k =
      ''acl.deny.branches'' then Some [(''frozen'', ''*'')] else None), acl_sources = None,
      group_cfg = (\<lambda>g. []), os_group = (\<lambda>g. None), getuser = ''alice''\<rparr>
      None None) \<lparr>cs_id = ''2b'', cs_branch = ''frozen'', cs_files = [''a.txt'']\<rparr>
           else if misses (allowbranches \<lparr>allowbranches = None, denybranches = Some
      (\<lambda>b. ''*'' \<in> set [''frozen''] \<or> b \<in> set [''frozen'']), allow = None,
      deny = None\<rparr>) (cs_branch \<lparr>cs_id = ''2b'', cs_branch = ''frozen'', cs_files =
      [''a.txt'']\<rparr>)
           then msg_branch_not_allowed (hook_user \<lparr>section_items = (\<lambda>k. if k =
      ''acl.deny.branches'' then Some [(''frozen'', ''*'')] else None), acl_sources = None,
      group_cfg = (\<lambda>g. []), os_group = (\<lambda>g. None), getuser = ''alice''\<rparr>
      None None) \<lparr>cs_id = ''2b'', cs_branch = ''frozen'', cs_files = [''a.txt'']\<rparr>
           else ''acl: access denied for changeset '' @ cs_id \<lparr>cs_id = ''2b'', cs_branch =
      ''frozen'', cs_files = [''a.txt'']\<rparr>) None)"
      by blast
    with p1 p2 show ?thesis
      by (simp add: u hits_def)
  qed
  from h s b p1 p2 r1 r2 show ?thesis by blast
qed

text \<open>
  The claim as the spec states it fails for changes whose source is not listed in
  \<open>acl.sources\<close>: a changeset on a branch that is denied to everyone is let through
  without any check when it is pushed locally, and stopped when it is served.
\<close>

theorem acl_every_changeset_counterexample:
  "hook \<lparr>section_items = (\<lambda>k. if k = ''acl.deny.branches'' then Some [(''frozen'',
      ''*'')] else None), acl_sources = None, group_cfg = (\<lambda>g. []), os_group =
      (\<lambda>g. None), getuser = ''alice''\<rparr> \<lparr>match_pats = (\<lambda>ps f. f
      \<in> set ps), match_exact_none = (\<lambda>f. False)\<rparr> ''pretxnchangegroup'' (Some
      ''push'') None [\<lparr>cs_id = ''2b'', cs_branch = ''frozen'', cs_files =
      [''a.txt'']\<rparr>]
     = ([''acl: changes have source '' @ dq @ ''push'' @ dq @ '' - skipping'' @ newline],
        Inr Skipped)
   \<and> snd (hook \<lparr>section_items = (\<lambda>k. if k = ''acl.deny.branches'' then Some
      [(''frozen'', ''*'')] else None), acl_sources = None, group_cfg = (\<lambda>g. []),
      os_group = (\<lambda>g. None), getuser = ''alice''\<rparr> \<lparr>match_pats =
      (\<lambda>ps f. f \<in> set ps), match_exact_none = (\<lambda>f. False)\<rparr>
      ''pretxnchangegroup'' (Some ''serve'') None [\<lparr>cs_id = ''2b'', cs_branch =
      ''frozen'', cs_files = [''a.txt'']\<rparr>])
     = Inl (Abort (msg_branch_denied ''alice'' \<lparr>cs_id = ''2b'', cs_branch = ''frozen'',
      cs_files = [''a.txt'']\<rparr>) None)"
  by (simp add: hook_def skipped_def py_split_def is_space_def hook_user_def build_lists_def
        buildmatch_def usermatch_def hits_def)

section \<open>Properties of resolve and the merge state\<close>

lemma map_of_ms_mark:
  "map_of (ms_mark ms f s) g = (if g = f then map_option (\<lambda>t. s) (map_of ms f) else map_of ms g)"
  by (induction ms) (auto simp: ms_mark_def)

lemma fst_ms_mark: "map fst (ms_mark ms f s) = map fst ms"
  by (induction ms) (auto simp: ms_mark_def)

lemma resolve_loop_keys:
  "map fst (fst (resolve_loop tool m opts fs (ms, out, ret))) = map fst ms"
  by (induction fs arbitrary: ms out ret)
     (auto simp: fst_ms_mark ms_resolve_def Let_def split: prod.splits)

lemma resolve_loop_list:
  "ropt_list opts \<Longrightarrow> fst (resolve_loop tool m opts fs (ms, out, ret)) = ms"
  by (induction fs arbitrary: ms out ret) auto

lemma resolve_loop_mark:
  "\<not> ropt_list opts \<Longrightarrow> ropt_mark opts \<Longrightarrow>
   map_of (fst (resolve_loop tool m opts fs (ms, out, ret))) g =
     (if g \<in> set fs \<and> m g then map_option (\<lambda>t. Resolved) (map_of ms g) else map_of ms g)"
  by (induction fs arbitrary: ms out ret)
     (auto simp: map_of_ms_mark option.map_comp comp_def)

lemma resolve_loop_unmark:
  "\<not> ropt_list opts \<Longrightarrow> \<not> ropt_mark opts \<Longrightarrow> ropt_unmark opts \<Longrightarrow>
   map_of (fst (resolve_loop tool m opts fs (ms, out, ret))) g =
     (if g \<in> set fs \<and> m g then map_option (\<lambda>t. Unresolved) (map_of ms g) else map_of ms g)"
  by (induction fs arbitrary: ms out ret)
     (auto simp: map_of_ms_mark option.map_comp comp_def)

lemma map_of_ms_resolve:
  "map_of (fst (ms_resolve tool ms f)) g =
     (if g = f \<and> tool f then map_option (\<lambda>t. Resolved) (map_of ms g) else map_of ms g)"
  by (auto simp: ms_resolve_def map_of_ms_mark)

lemma resolve_loop_tool:
  "\<not> ropt_list opts \<Longrightarrow> \<not> ropt_mark opts \<Longrightarrow> \<not> ropt_unmark opts \<Longrightarrow>
   map_of (fst (resolve_loop tool m opts fs (ms, out, ret))) g =
     (if g \<in> set fs \<and> m g \<and> tool g then map_option (\<lambda>t. Resolved) (map_of ms g)
      else map_of ms g)"
proof (induction fs arbitrary: ms out ret)
  case Nil
  then show ?case by simp
next
  case (Cons f fs)
  obtain ms1 r where s: "ms_resolve tool ms f = (ms1, r)" by (cases "ms_resolve tool ms f")
  have m1: "\<And>h. map_of ms1 h =
     (if h = f \<and> tool f then map_option (\<lambda>t. Resolved) (map_of ms h) else map_of ms h)"
    using map_of_ms_resolve [of tool ms f] s by simp
  show ?case
    using Cons.prems Cons.IH [OF Cons.prems, of ms1 out "if r then 1 else ret"]
      Cons.IH [OF Cons.prems, of ms out ret]
    by (auto simp: s m1 option.map_comp comp_def)
qed

text \<open>
  C2. When \<open>resolve\<close> returns, the merge state has the same paths, and a path that
  was unresolved is resolved afterwards exactly when the patterns match it and either
  it was marked (\<open>-m\<close>) or the merge tool was run on it and succeeded; listing and
  unmarking resolve nothing. A commit is refused as long as a path is unresolved and
  goes through, clearing the merge state, when none is.
\<close>

theorem resolve_state_machine:
  assumes "resolve_cmd tool m ms pats opts = Inr (ms', out, ret)"
  shows "map fst ms' = map fst ms
     \<and> (\<forall>f. map_of ms f = Some Unresolved \<longrightarrow>
           (map_of ms' f = Some Resolved \<longleftrightarrow>
              m f \<and> (ropt_mark opts \<or> (\<not> ropt_list opts \<and> \<not> ropt_unmark opts \<and> tool f))))
     \<and> (Unresolved \<in> set (map snd ms') \<longrightarrow> (\<exists>msg. repo_commit ms' = Inl (Abort msg None)))
     \<and> (Unresolved \<notin> set (map snd ms') \<longrightarrow> repo_commit ms' = Inr [])"
proof -
  from assms have r: "resolve_loop tool m opts (map fst ms) (ms, [], 0) = (ms', out, ret)"
    and o1: "\<not> (ropt_list opts \<and> (ropt_mark opts \<or> ropt_unmark opts))"
    and o2: "\<not> (ropt_mark opts \<and> ropt_unmark opts)"
    by (auto simp: resolve_cmd_def split: if_splits)
  from r have ms': "ms' = fst (resolve_loop tool m opts (map fst ms) (ms, [], 0))" by simp
  have k: "map fst ms' = map fst ms"
    unfolding ms' by (rule resolve_loop_keys)
  have t: "\<forall>f. map_of ms f = Some Unresolved \<longrightarrow>
           (map_of ms' f = Some Resolved \<longleftrightarrow>
              m f \<and> (ropt_mark opts \<or> (\<not> ropt_list opts \<and> \<not> ropt_unmark opts \<and> tool f)))"
  proof (intro allI impI)
    fix f assume u: "map_of ms f = Some Unresolved"
    then have inl: "f \<in> set (map fst ms)"
      by (metis map_of_eq_None_iff option.distinct(1) set_map)
    consider (l) "ropt_list opts" | (mk) "\<not> ropt_list opts" "ropt_mark opts"
      | (um) "\<not> ropt_list opts" "\<not> ropt_mark opts" "ropt_unmark opts"
      | (tl) "\<not> ropt_list opts" "\<not> ropt_mark opts" "\<not> ropt_unmark opts"
      by blast
    then show "map_of ms' f = Some Resolved \<longleftrightarrow>
              m f \<and> (ropt_mark opts \<or> (\<not> ropt_list opts \<and> \<not> ropt_unmark opts \<and> tool f))"
    proof cases
      case l
      with o1 u show ?thesis unfolding ms' by (simp add: resolve_loop_list)
    next
      case mk
      with o2 u inl show ?thesis unfolding ms' by (simp add: resolve_loop_mark)
    next
      case um
      with u inl show ?thesis unfolding ms' by (simp add: resolve_loop_unmark)
    next
      case tl
      with u inl show ?thesis unfolding ms' by (simp add: resolve_loop_tool)
    qed
  qed
  have c: "(Unresolved \<in> set (map snd ms') \<longrightarrow> (\<exists>msg. repo_commit ms' = Inl (Abort msg None)))
     \<and> (Unresolved \<notin> set (map snd ms') \<longrightarrow> repo_commit ms' = Inr [])"
    by (simp add: repo_commit_def)
  from k t c show ?thesis by blast
qed

theorem resolve_state_machine_witness:
  "resolve_cmd (\<lambda>f. f = ''a.c'') (\<lambda>f. True) [(''a.c'', Unresolved), (''b.c'', Unresolved)] []
      \<lparr>ropt_all = True, ropt_mark = False, ropt_unmark = False, ropt_list = False,
        ropt_no_status = False\<rparr>
     = Inr ([(''a.c'', Resolved), (''b.c'', Unresolved)], [], 1)
   \<and> map_of [(''a.c'', Unresolved), (''b.c'', Unresolved)] ''a.c'' = Some Unresolved
   \<and> map_of [(''a.c'', Resolved), (''b.c'', Unresolved)] ''a.c'' = Some Resolved
   \<and> Unresolved \<in> set (map snd [(''a.c'', Resolved), (''b.c'', Unresolved)])
   \<and> repo_commit [(''a.c'', Resolved), (''b.c'', Unresolved)]
       = Inl (Abort ''unresolved merge conflicts'' None)"
proof -
  have r: "resolve_cmd (\<lambda>f. f = ''a.c'') (\<lambda>f. True) [(''a.c'', Unresolved), (''b.c'', Unresolved)] []
      \<lparr>ropt_all = True, ropt_mark = False, ropt_unmark = False, ropt_list = False,
        ropt_no_status = False\<rparr>
     = Inr ([(''a.c'', Resolved), (''b.c'', Unresolved)], [], 1)"
    by (simp add: resolve_cmd_def ms_resolve_def ms_mark_def)
  from resolve_state_machine [OF r] show ?thesis
    using r by (simp add: repo_commit_def)
qed


section \<open>Properties of the locks and of strip\<close>

lemma locks_after_append: "locks_after (xs @ ys) s = locks_after ys (locks_after xs s)"
  by (induction xs s rule: locks_after.induct) auto

lemma locks_after_single_quiet:
  "e \<notin> {AcquireWlock, AcquireLock, ReleaseLock, ReleaseWlock} \<Longrightarrow> locks_after [e] s = s"
  by (cases e; cases s) auto

lemma locks_after_Cons: "locks_after (e # es) s = locks_after es (locks_after [e] s)"
  using locks_after_append [of "[e]" es s] by simp

lemma locks_after_quiet:
  "set xs \<inter> {AcquireWlock, AcquireLock, ReleaseLock, ReleaseWlock} = {} \<Longrightarrow>
   locks_after xs s = s"
proof (induction xs)
  case Nil
  show ?case by simp
next
  case (Cons e es)
  then have e: "e \<notin> {AcquireWlock, AcquireLock, ReleaseLock, ReleaseWlock}"
    and es: "set es \<inter> {AcquireWlock, AcquireLock, ReleaseLock, ReleaseWlock} = {}"
    by auto
  show ?case
    using locks_after_Cons [of e es s] locks_after_single_quiet [OF e, of s] Cons.IH [OF es]
    by simp
qed

lemma wlock_first_append:
  "wlock_first (xs @ ys) s = (wlock_first xs s \<and> wlock_first ys (locks_after xs s))"
proof (induction xs arbitrary: s)
  case Nil
  show ?case by simp
next
  case (Cons e es)
  show ?case
    using Cons [of "locks_after [e] s"] locks_after_Cons [of e es s] by auto
qed

lemma wlock_first_quiet:
  "set xs \<inter> {AcquireWlock, AcquireLock, ReleaseLock, ReleaseWlock} = {} \<Longrightarrow> wlock_first xs s"
proof (induction xs arbitrary: s)
  case Nil
  show ?case by simp
next
  case (Cons e es)
  then show ?case by auto
qed


lemma guarded_append_tail:
  "(\<And>s' sv'. guarded ys s' sv') \<Longrightarrow> guarded (xs @ ys) s sv = guarded xs s sv"
  by (induction xs s sv rule: guarded.induct) auto

lemma strip_revs_quiet:
  "set (fst (strip_revs env backup revs))
     \<inter> {AcquireWlock, AcquireLock, ReleaseLock, ReleaseWlock} = {}"
  by (induction revs) (auto simp: repair_strip_def split: option.splits prod.splits)

lemma strip_revs_guarded:
  "guarded (fst (strip_revs env backup revs)) (True, True) sv"
  by (induction revs arbitrary: sv) (auto simp: repair_strip_def split: option.splits prod.splits)

lemma strip_revs_all:
  "snd (strip_revs env backup revs) = None \<Longrightarrow> n \<in> set revs \<Longrightarrow>
   Truncate n \<in> set (fst (strip_revs env backup revs))"
  by (induction revs) (auto simp: repair_strip_def split: option.splits prod.splits)

lemma strip_body_quiet:
  "set (fst (strip_body env revs update backup))
     \<inter> {AcquireWlock, AcquireLock, ReleaseLock, ReleaseWlock} = {}"
  using strip_revs_quiet [of env backup revs]
  by (auto simp: strip_body_def split: option.splits prod.splits list.splits)

lemma strip_body_guarded:
  "guarded (fst (strip_body env revs update backup)) (True, True) sv"
  using strip_revs_guarded [of env backup revs sv]
  by (auto simp: strip_body_def guarded_append_tail split: option.splits prod.splits list.splits)

lemma strip_body_all:
  "snd (strip_body env revs update backup) = None \<Longrightarrow> n \<in> set revs \<Longrightarrow>
   Truncate n \<in> set (fst (strip_body env revs update backup))"
  using strip_revs_all [of env backup revs n]
  by (auto simp: strip_body_def split: option.splits prod.splits list.splits if_splits)

lemma queue_strip_guarded:
  "guarded (fst (queue_strip env revs update backup)) (False, False) sv"
  using strip_body_guarded [of env revs update backup sv]
  by (auto simp: queue_strip_def guarded_append_tail split: option.splits prod.splits)

lemma queue_strip_locks_after:
  "locks_after (fst (queue_strip env revs update backup)) (False, False) = (False, False)"
  using locks_after_quiet [OF strip_body_quiet, of env revs update backup "(True, True)"]
  by (auto simp: queue_strip_def locks_after_append split: option.splits prod.splits)

lemma queue_strip_wlock_first:
  "wlock_first (fst (queue_strip env revs update backup)) (False, False)"
  using locks_after_quiet [OF strip_body_quiet, of env revs update backup "(True, True)"]
    wlock_first_quiet [OF strip_body_quiet, of env revs update backup "(True, True)"]
  by (auto simp: queue_strip_def wlock_first_append split: option.splits prod.splits)

lemma queue_strip_all:
  "snd (queue_strip env revs update backup) = None \<Longrightarrow> n \<in> set revs \<Longrightarrow>
   Truncate n \<in> set (fst (queue_strip env revs update backup))"
  using strip_body_all [of env revs update backup n]
  by (auto simp: queue_strip_def split: option.splits prod.splits)



lemma guarded_savedirty: "guarded ((if b then [SaveDirty] else []) @ xs) s sv = guarded xs s sv"
  by (cases s) simp

lemma guarded_keep_prefix:
  "guarded ([AcquireWlock, DirstateRebuild n, DirstateWrite, ReleaseWlock] @ xs) (False, False) sv
     = guarded xs (False, False) sv"
  by simp

lemma locks_after_savedirty: "locks_after ((if b then [SaveDirty] else []) @ xs) s = locks_after xs s"
  by (cases s) simp

lemma locks_after_keep_prefix:
  "locks_after ([AcquireWlock, DirstateRebuild n, DirstateWrite, ReleaseWlock] @ xs) (False, False)
     = locks_after xs (False, False)"
  by simp

text \<open>
  C3. In every run of \<open>strip\<close>, and of \<open>queue.strip\<close> called on its own, a
  truncation happens only while the working-directory lock and the store lock are both
  held and after the backup bundle of the same node has been written; both locks are
  released at the end, whether the command returns or raises; and when \<open>strip\<close>
  returns 0, every root it was given has been truncated.
\<close>

theorem strip_guarded:
  "guarded (fst (strip_cmd env a opts)) (False, False) []
   \<and> locks_after (fst (strip_cmd env a opts)) (False, False) = (False, False)
   \<and> (snd (strip_cmd env a opts) = Inr (PyInt 0) \<longrightarrow>
        (\<forall>r\<in>set (sa_revs a). r \<notin> set (sa_descendants a) \<longrightarrow>
           Truncate (sa_node a r) \<in> set (fst (strip_cmd env a opts))))
   \<and> guarded (fst (queue_strip env revs0 update0 backup0)) (False, False) []"
proof -
  define backup where "backup = (if sopt_backup opts then ''strip''
                   else if sopt_no_backup opts \<or> sopt_nobackup opts then ''none''
                   else ''all'')"
  define revs where "revs = set_list (se_rank env) (map (sa_node a)
                   (filter (\<lambda>r. r \<notin> set (sa_descendants a)) (sa_revs a)))"
  define update where "update = (\<exists>p\<in>set (sa_wparents a).
       p \<in> set (sa_revs a) \<union> set (sa_descendants a))"
  define ev0 where "ev0 = (if sa_qtip_stripped a then [SaveDirty] else [])"
  have eq: "strip_cmd env a opts =
     (if sa_revs a = [] then ([], Inl (Abort ''empty revision set'' None))
      else if update \<and> sopt_keep opts then
                (case se_wlock env of
                   Some e \<Rightarrow> (ev0, Inl e)
                 | None \<Rightarrow>
                     (case revs of
                        [] \<Rightarrow> (ev0 @ [AcquireWlock, ReleaseWlock], Inl IndexError)
                      | nd # _ \<Rightarrow>
                          (let ev1 = ev0 @ [AcquireWlock, DirstateRebuild (se_qparents env nd),
                                            DirstateWrite, ReleaseWlock]
                           in case queue_strip env revs False backup of
                                (evs, Some e) \<Rightarrow> (ev1 @ evs, Inl e)
                              | (evs, None) \<Rightarrow> (ev1 @ evs, Inr (PyInt 0)))))
              else
                (case queue_strip env revs update backup of
                   (evs, Some e) \<Rightarrow> (ev0 @ evs, Inl e)
                 | (evs, None) \<Rightarrow> (ev0 @ evs, Inr (PyInt 0))))"
    unfolding strip_cmd_def Let_def backup_def revs_def update_def ev0_def by (rule refl)
  obtain evsF rF where qF: "queue_strip env revs False backup = (evsF, rF)"
    by (cases "queue_strip env revs False backup")
  obtain evsU rU where qU: "queue_strip env revs update backup = (evsU, rU)"
    by (cases "queue_strip env revs update backup")
  have gF: "guarded evsF (False, False) []"
    using queue_strip_guarded [of env revs False backup "[]"] qF by simp
  have gU: "guarded evsU (False, False) []"
    using queue_strip_guarded [of env revs update backup "[]"] qU by simp
  have lF: "locks_after evsF (False, False) = (False, False)"
    using queue_strip_locks_after [of env revs False backup] qF by simp
  have lU: "locks_after evsU (False, False) = (False, False)"
    using queue_strip_locks_after [of env revs update backup] qU by simp
  have tF: "\<And>n. rF = None \<Longrightarrow> n \<in> set revs \<Longrightarrow> Truncate n \<in> set evsF"
    using queue_strip_all [of env revs False backup] qF by simp
  have tU: "\<And>n. rU = None \<Longrightarrow> n \<in> set revs \<Longrightarrow> Truncate n \<in> set evsU"
    using queue_strip_all [of env revs update backup] qU by simp
  have e0: "ev0 = [] \<or> ev0 = [SaveDirty]"
    by (simp add: ev0_def)
  have a1: "guarded (fst (strip_cmd env a opts)) (False, False) []"
    unfolding eq using gF gU e0 qF qU
    by (auto simp: Let_def split: option.splits list.splits)
  have a2: "locks_after (fst (strip_cmd env a opts)) (False, False) = (False, False)"
    unfolding eq using lF lU e0 qF qU
    by (auto simp: Let_def split: option.splits list.splits)
  have a3: "snd (strip_cmd env a opts) = Inr (PyInt 0) \<longrightarrow>
        (\<forall>r\<in>set (sa_revs a). r \<notin> set (sa_descendants a) \<longrightarrow>
           Truncate (sa_node a r) \<in> set (fst (strip_cmd env a opts)))"
  proof (intro impI ballI)
    fix r assume ok: "snd (strip_cmd env a opts) = Inr (PyInt 0)"
      and r: "r \<in> set (sa_revs a)" "r \<notin> set (sa_descendants a)"
    from r have n: "sa_node a r \<in> set revs" by (simp add: revs_def set_list_def)
    show "Truncate (sa_node a r) \<in> set (fst (strip_cmd env a opts))"
      using ok tF [OF _ n] tU [OF _ n] qF qU unfolding eq
      by (auto simp: Let_def split: option.splits list.splits if_splits)
  qed
  from a1 a2 a3 queue_strip_guarded [of env revs0 update0 backup0 "[]"] show ?thesis by blast
qed

theorem strip_guarded_witness:
  "snd (strip_cmd \<lparr>se_wlock = None, se_lock = None, se_localchanges = None,
          se_qparents = (\<lambda>n. ''p0''), se_strip = (\<lambda>n. None),
          se_rank = (\<lambda>n. 0)\<rparr>
        \<lparr>sa_revs = [2], sa_descendants = [3], sa_wparents = [3],
          sa_node = (\<lambda>r. if r = 2 then ''n2'' else ''nx''), sa_qtip_stripped = False\<rparr>
        \<lparr>sopt_backup = False, sopt_no_backup = True, sopt_nobackup = False,
          sopt_keep = False\<rparr>) = Inr (PyInt 0)
   \<and> (2::nat) \<in> set [2] \<and> (2::nat) \<notin> set [3]
   \<and> fst (strip_cmd \<lparr>se_wlock = None, se_lock = None, se_localchanges = None,
          se_qparents = (\<lambda>n. ''p0''), se_strip = (\<lambda>n. None),
          se_rank = (\<lambda>n. 0)\<rparr>
        \<lparr>sa_revs = [2], sa_descendants = [3], sa_wparents = [3],
          sa_node = (\<lambda>r. if r = 2 then ''n2'' else ''nx''), sa_qtip_stripped = False\<rparr>
        \<lparr>sopt_backup = False, sopt_no_backup = True, sopt_nobackup = False,
          sopt_keep = False\<rparr>)
     = [AcquireWlock, AcquireLock, CheckLocalChanges, Clean ''p0'', DirstateWrite, RemoveUndo,
        WriteBackup ''n2'', Truncate ''n2'', DiscardBackup ''n2'', RemoveUndo,
        ReleaseLock, ReleaseWlock]"
  using strip_guarded [of "\<lparr>se_wlock = None, se_lock = None, se_localchanges = None,
          se_qparents = (\<lambda>n. ''p0''), se_strip = (\<lambda>n. None),
          se_rank = (\<lambda>n. 0)\<rparr>"
        "\<lparr>sa_revs = [2], sa_descendants = [3], sa_wparents = [3],
          sa_node = (\<lambda>r. if r = 2 then ''n2'' else ''nx''), sa_qtip_stripped = False\<rparr>"
        "\<lparr>sopt_backup = False, sopt_no_backup = True, sopt_nobackup = False,
          sopt_keep = False\<rparr>"]
  by (simp add: strip_cmd_def queue_strip_def strip_body_def repair_strip_def set_list_def)

lemma import_hunks_quiet:
  "set (fst (import_hunks p i h hs)) \<inter> {AcquireWlock, AcquireLock, ReleaseLock, ReleaseWlock} = {}"
  by (induction hs arbitrary: i h) (simp_all add: split_beta split: sum.splits)

lemma import_patches_quiet:
  "set (fst (import_patches env ps)) \<inter> {AcquireWlock, AcquireLock, ReleaseLock, ReleaseWlock} = {}"
proof (induction ps)
  case Nil
  show ?case by simp
next
  case (Cons p ps)
  have q: "set (fst (import_hunks p 0 False (ie_hunks env p)))
      \<inter> {AcquireWlock, AcquireLock, ReleaseLock, ReleaseWlock} = {}"
    by (rule import_hunks_quiet)
  show ?case
    using Cons q
    by (auto simp: split_beta split: option.splits sum.splits)
qed

lemma import_wlock_first:
  "wlock_first (fst (import_cmd env patches)) (False, False)"
  using locks_after_quiet [OF import_patches_quiet, of env patches "(True, True)"]
    wlock_first_quiet [OF import_patches_quiet, of env patches "(True, True)"]
  by (auto simp: import_cmd_def wlock_first_append split: option.splits prod.splits)

lemma lock_step_inv: "lock_inv st \<Longrightarrow> lock_inv (lock_step pa st)"
  by (cases pa; cases "snd pa") (auto simp: lock_inv_def lock_step_def)

lemma lock_fold_inv: "lock_inv st \<Longrightarrow> lock_inv (fold lock_step sched st)"
  by (induction sched arbitrary: st) (auto intro: lock_step_inv)

lemma lock_run_inv: "lock_inv (lock_run sched)"
  unfolding lock_run_def by (rule lock_fold_inv) (simp add: lock_inv_def lock_init_def)

lemma lock_exclusion:
  "holds (lock_run sched) p l \<Longrightarrow> holds (lock_run sched) q l \<Longrightarrow> p = q"
  using lock_run_inv [of sched] by (auto simp: lock_inv_def)

text \<open>
  C1, as the code has it. \<open>queue.strip\<close> and \<open>import\<close>, the two commands that
  take both locks, take the working-directory lock first and the store lock second, so
  the store lock is only ever taken while the working-directory lock is held; and
  whatever the processes try in whatever order, no two of them hold the same lock.
\<close>

theorem lock_order:
  "wlock_first (fst (queue_strip env revs update backup)) (False, False)
   \<and> (se_wlock env = None \<and> se_lock env = None \<longrightarrow>
        take 2 (fst (queue_strip env revs update backup)) = [AcquireWlock, AcquireLock])
   \<and> wlock_first (fst (import_cmd ienv patches)) (False, False)
   \<and> (ie_checks ienv = None \<and> ie_wlock ienv = None \<and> ie_lock ienv = None \<longrightarrow>
        take 2 (fst (import_cmd ienv patches)) = [AcquireWlock, AcquireLock])
   \<and> (\<forall>p q l. holds (lock_run sched) p l \<and> holds (lock_run sched) q l \<longrightarrow> p = q)"
proof -
  have a: "se_wlock env = None \<and> se_lock env = None \<longrightarrow>
        take 2 (fst (queue_strip env revs update backup)) = [AcquireWlock, AcquireLock]"
    by (simp add: queue_strip_def split_beta)
  have b: "ie_checks ienv = None \<and> ie_wlock ienv = None \<and> ie_lock ienv = None \<longrightarrow>
        take 2 (fst (import_cmd ienv patches)) = [AcquireWlock, AcquireLock]"
    by (simp add: import_cmd_def split_beta)
  have c: "\<forall>p q l. holds (lock_run sched) p l \<and> holds (lock_run sched) q l \<longrightarrow> p = q"
    using lock_exclusion by blast
  from a b c queue_strip_wlock_first [of env revs update backup]
    import_wlock_first [of ienv patches]
  show ?thesis by blast
qed

theorem lock_order_witness:
  "fst (queue_strip \<lparr>se_wlock = None, se_lock = None, se_localchanges = None,
          se_qparents = (\<lambda>n. ''p0''), se_strip = (\<lambda>n. None),
          se_rank = (\<lambda>n. 0)\<rparr> [''n2''] False ''all'')
     = [AcquireWlock, AcquireLock, RemoveUndo, WriteBackup ''n2'', Truncate ''n2'',
        RemoveUndo, ReleaseLock, ReleaseWlock]
   \<and> fst (import_cmd \<lparr>ie_checks = None, ie_wlock = None, ie_lock = None,
          ie_open = (\<lambda>p. None), ie_hunks = (\<lambda>p. [Inr (Some ''0a1b'')])\<rparr> [''fix.patch''])
     = [AcquireWlock, AcquireLock, OpenPatch ''fix.patch'', TryOne ''fix.patch'' 0,
        ReleaseLock, ReleaseWlock]
   \<and> holds (lock_run [(1, TryLock StoreLock), (2, TryLock StoreLock)]) 1 StoreLock
   \<and> \<not> holds (lock_run [(1, TryLock StoreLock), (2, TryLock StoreLock)]) 2 StoreLock"
  using lock_order [of "\<lparr>se_wlock = None, se_lock = None, se_localchanges = None,
          se_qparents = (\<lambda>n. ''p0''), se_strip = (\<lambda>n. None),
          se_rank = (\<lambda>n. 0)\<rparr>" "[''n2'']" False "''all''"
        "\<lparr>ie_checks = None, ie_wlock = None, ie_lock = None,
          ie_open = (\<lambda>p. None), ie_hunks = (\<lambda>p. [Inr (Some ''0a1b'')])\<rparr>" "[''fix.patch'']"
        "[(1, TryLock StoreLock), (2, TryLock StoreLock)]"]
  by (simp add: queue_strip_def strip_body_def repair_strip_def import_cmd_def truthy_def
        lock_run_def lock_step_def lock_init_def)

text \<open>
  The claim as the spec states it, store lock before working-directory lock, fails: in
  both commands the working-directory lock is taken while the store lock is not held.
\<close>

theorem store_first_counterexample:
  "\<not> store_first
       (fst (queue_strip \<lparr>se_wlock = None, se_lock = None, se_localchanges = None,
          se_qparents = (\<lambda>n. ''p0''), se_strip = (\<lambda>n. None),
          se_rank = (\<lambda>n. 0)\<rparr> [''n2''] False ''all''))
       (False, False)
   \<and> \<not> store_first
       (fst (import_cmd \<lparr>ie_checks = None, ie_wlock = None, ie_lock = None,
          ie_open = (\<lambda>p. None), ie_hunks = (\<lambda>p. [Inr (Some ''0a1b'')])\<rparr> [''fix.patch'']))
       (False, False)"
  by (simp add: queue_strip_def strip_body_def repair_strip_def import_cmd_def truthy_def)

section \<open>Properties of heads\<close>

lemma has_child_iff:
  "has_child cl r \<longleftrightarrow> (\<exists>c<length cl. ce_p1 (cl ! c) = int r \<or> ce_p2 (cl ! c) = int r)"
proof
  assume "has_child cl r"
  then obtain e where "e \<in> set cl" and e: "ce_p1 e = int r \<or> ce_p2 e = int r"
    by (auto simp: has_child_def list_ex_iff)
  then obtain c where "c < length cl" and "cl ! c = e"
    by (auto simp: in_set_conv_nth)
  with e show "\<exists>c<length cl. ce_p1 (cl ! c) = int r \<or> ce_p2 (cl ! c) = int r"
    by auto
next
  assume "\<exists>c<length cl. ce_p1 (cl ! c) = int r \<or> ce_p2 (cl ! c) = int r"
  then obtain c where c: "c < length cl"
    and p: "ce_p1 (cl ! c) = int r \<or> ce_p2 (cl ! c) = int r"
    by auto
  from c have "cl ! c \<in> set cl" by simp
  with p show "has_child cl r"
    unfolding has_child_def list_ex_iff by blast
qed

lemma set_heads: "set (heads cl) = {r. r < length cl \<and> \<not> has_child cl r}"
  by (auto simp: heads_def)

lemma sorted_desc_upt: "sorted_wrt (>) (rev [0..<n])"
  by (simp add: sorted_wrt_rev)

lemma sorted_heads: "sorted_wrt (>) (heads cl)"
  unfolding heads_def by (rule sorted_wrt_filter) (rule sorted_desc_upt)

lemma distinct_heads: "distinct (heads cl)"
  by (simp add: heads_def)

lemma map_exn_ok:
  "(\<forall>x\<in>set xs. f x = Inr (g x)) \<Longrightarrow> map_exn f xs = Inr (map g xs)"
  by (induction xs) auto

lemma ctx_heads:
  "map_exn (ctx_of repo) (heads (changelog repo))
     = Inr (map (\<lambda>r. (r, changelog repo ! r)) (heads (changelog repo)))"
  by (rule map_exn_ok) (simp add: set_heads ctx_of_def)

lemma sorted_neg: "sorted_wrt (>) xs \<Longrightarrow> sorted (map (\<lambda>r. - int r) xs)"
  by (induction xs) auto

lemma sort_heads_id:
  "sort_key (\<lambda>h. - int (fst h)) (map (\<lambda>r. (r, changelog repo ! r)) (heads (changelog repo)))
     = map (\<lambda>r. (r, changelog repo ! r)) (heads (changelog repo))"
  by (rule sort_key_id_if_sorted) (simp add: comp_def sorted_neg sorted_heads)

text \<open>
  C6. \<open>heads\<close> lists exactly the revisions that are no parent of any revision, each
  once and in descending order, and nothing for an empty changelog. On an empty
  repository the command, given no revision, shows nothing and returns 1; with
  \<open>--topo\<close> and \<open>--closed\<close> it shows these heads in that order and returns 1
  exactly when there are none.
\<close>

theorem heads_no_child:
  "set (heads cl)
     = {r. r < length cl
           \<and> \<not> (\<exists>c<length cl. ce_p1 (cl ! c) = int r \<or> ce_p2 (cl ! c) = int r)}
   \<and> sorted_wrt (>) (heads cl) \<and> distinct (heads cl) \<and> heads [] = []
   \<and> (changelog repo = [] \<and> branchmap repo = [] \<and> \<not> truthy (hopt_rev opts) \<longrightarrow>
        heads_cmd py repo [] opts = Inr ([], [], PyInt 1))
   \<and> (hopt_topo opts \<and> hopt_closed opts \<and> \<not> truthy (hopt_rev opts) \<longrightarrow>
        heads_cmd py repo [] opts
          = Inr ([], heads (changelog repo),
                 if heads (changelog repo) = [] then PyInt 1 else PyNone))
   \<and> sys_exit (PyInt 1) = 1"
proof -
  have a: "set (heads cl)
     = {r. r < length cl
           \<and> \<not> (\<exists>c<length cl. ce_p1 (cl ! c) = int r \<or> ce_p2 (cl ! c) = int r)}"
    using set_heads [of cl] has_child_iff [of cl] by simp
  have e: "heads [] = []"
    by (simp add: heads_def)
  have b: "changelog repo = [] \<and> branchmap repo = [] \<and> \<not> truthy (hopt_rev opts) \<longrightarrow>
        heads_cmd py repo [] opts = Inr ([], [], PyInt 1)"
    by (simp add: heads_cmd_def heads_from_def e set_list_def)
  have c: "hopt_topo opts \<and> hopt_closed opts \<and> \<not> truthy (hopt_rev opts) \<longrightarrow>
        heads_cmd py repo [] opts
          = Inr ([], heads (changelog repo),
                 if heads (changelog repo) = [] then PyInt 1 else PyNone)"
    by (simp add: heads_cmd_def heads_from_def ctx_heads sort_heads_id comp_def
          set_list_def)
  have d: "sys_exit (PyInt 1) = 1"
    by (simp add: sys_exit_def)
  from a b c d e sorted_heads [of cl] distinct_heads [of cl] show ?thesis by blast
qed


theorem heads_no_child_witness:
  "heads [\<lparr>ce_p1 = - 1, ce_p2 = - 1, ce_branch = ''default'', ce_close = False\<rparr>,
      \<lparr>ce_p1 = 0, ce_p2 = - 1, ce_branch = ''default'', ce_close = False\<rparr>,
      \<lparr>ce_p1 = 0, ce_p2 = - 1, ce_branch = ''default'', ce_close = False\<rparr>] = [2, 1]
   \<and> heads_cmd \<lparr>py_format = (\<lambda>f a. Inr f), str_rank = (\<lambda>b. 0)\<rparr>
        \<lparr>changelog = [\<lparr>ce_p1 = - 1, ce_p2 = - 1, ce_branch = ''default'', ce_close = False\<rparr>,
      \<lparr>ce_p1 = 0, ce_p2 = - 1, ce_branch = ''default'', ce_close = False\<rparr>,
      \<lparr>ce_p1 = 0, ce_p2 = - 1, ce_branch = ''default'', ce_close = False\<rparr>], branchmap = [(''default'', [2, 1])],
          hlookup = (\<lambda>n. Inl (RepoError ''unknown revision'')), hdescendants = (\<lambda>r. [])\<rparr> []
        \<lparr>hopt_rev = None, hopt_topo = True, hopt_closed = True, hopt_active = False\<rparr>
       = Inr ([], [2, 1], PyNone)
   \<and> heads_cmd \<lparr>py_format = (\<lambda>f a. Inr f), str_rank = (\<lambda>b. 0)\<rparr>
        \<lparr>changelog = [], branchmap = [],
          hlookup = (\<lambda>n. Inl (RepoError ''unknown revision'')), hdescendants = (\<lambda>r. [])\<rparr> []
        \<lparr>hopt_rev = None, hopt_topo = False, hopt_closed = False, hopt_active = False\<rparr>
       = Inr ([], [], PyInt 1)"
proof -
  have h: "heads [\<lparr>ce_p1 = - 1, ce_p2 = - 1, ce_branch = ''default'', ce_close = False\<rparr>,
      \<lparr>ce_p1 = 0, ce_p2 = - 1, ce_branch = ''default'', ce_close = False\<rparr>,
      \<lparr>ce_p1 = 0, ce_p2 = - 1, ce_branch = ''default'', ce_close = False\<rparr>] = [2, 1]"
    by (simp add: heads_def has_child_def)
  have t: "\<not> truthy None"
    by (simp add: truthy_def)
  show ?thesis
    using heads_no_child [of "[\<lparr>ce_p1 = - 1, ce_p2 = - 1, ce_branch = ''default'', ce_close = False\<rparr>,
      \<lparr>ce_p1 = 0, ce_p2 = - 1, ce_branch = ''default'', ce_close = False\<rparr>,
      \<lparr>ce_p1 = 0, ce_p2 = - 1, ce_branch = ''default'', ce_close = False\<rparr>]"
        "\<lparr>changelog = [\<lparr>ce_p1 = - 1, ce_p2 = - 1, ce_branch = ''default'', ce_close = False\<rparr>,
      \<lparr>ce_p1 = 0, ce_p2 = - 1, ce_branch = ''default'', ce_close = False\<rparr>,
      \<lparr>ce_p1 = 0, ce_p2 = - 1, ce_branch = ''default'', ce_close = False\<rparr>], branchmap = [(''default'', [2, 1])],
          hlookup = (\<lambda>n. Inl (RepoError ''unknown revision'')), hdescendants = (\<lambda>r. [])\<rparr>"
        "\<lparr>hopt_rev = None, hopt_topo = True, hopt_closed = True, hopt_active = False\<rparr>"
        "\<lparr>py_format = (\<lambda>f a. Inr f), str_rank = (\<lambda>b. 0)\<rparr>"]
      heads_no_child [of "[]"
        "\<lparr>changelog = [], branchmap = [],
          hlookup = (\<lambda>n. Inl (RepoError ''unknown revision'')), hdescendants = (\<lambda>r. [])\<rparr>"
        "\<lparr>hopt_rev = None, hopt_topo = False, hopt_closed = False, hopt_active = False\<rparr>"
        "\<lparr>py_format = (\<lambda>f a. Inr f), str_rank = (\<lambda>b. 0)\<rparr>"]
      h t
    by simp
qed

section \<open>Properties of the dispatcher\<close>

lemma warned_append: "warned (xs @ ys) = warned xs @ warned ys"
  by (induction xs rule: warned.induct) auto

lemma runcatch_exn:
  "runcatch env args (Inl e) =
     ((if ''--debugger'' \<in> set args
       then [Warn (''entering debugger - type c to continue starting hg or h for help''
                   @ newline), SetTrace]
       else []) @ [Flush]
      @ (if ''--debugger'' \<in> set args then [PrintExc, PostMortem] else [])
      @ [UiTraceback] @ fst (handle_exn env e),
      snd (handle_exn env e))"
  by (simp add: runcatch_def Let_def split: prod.splits)

lemma warned_runcatch_exn:
  "warned (fst (runcatch env args (Inl e))) =
     (if ''--debugger'' \<in> set args
      then ''entering debugger - type c to continue starting hg or h for help'' @ newline
      else []) @ warned (fst (handle_exn env e))"
  by (simp add: runcatch_exn warned_append)






















text \<open>
  C5. A \<open>LockHeld\<close> error whose errno is \<open>ETIMEDOUT\<close> is reported as
  \<open>abort: <lock>: timed out waiting for lock held by <locker>\<close>: the text names the
  holder, the dispatcher returns \<open>-1\<close>, and the text differs from that of a
  \<open>LockHeld\<close> error with any other errno.
\<close>

theorem lock_timeout_surfaced:
  "warned (fst (runcatch env args (Inl (LockHeld ETIMEDOUT filename desc locker))))
     = (if ''--debugger'' \<in> set args
        then ''entering debugger - type c to continue starting hg or h for help'' @ newline
        else [])
       @ ''abort: '' @ or_else desc filename @ '': timed out waiting for lock held by ''
       @ locker @ newline
   \<and> sublist locker
        (warned (fst (runcatch env args (Inl (LockHeld ETIMEDOUT filename desc locker)))))
   \<and> snd (runcatch env args (Inl (LockHeld ETIMEDOUT filename desc locker)))
       = Inr (PyInt (- 1))
   \<and> (errno \<noteq> ETIMEDOUT \<longrightarrow>
        warned (fst (runcatch env args (Inl (LockHeld errno filename desc locker))))
        \<noteq> warned (fst (runcatch env args (Inl (LockHeld ETIMEDOUT filename desc locker)))))"
proof -
  let ?pre = "(if ''--debugger'' \<in> set args
        then ''entering debugger - type c to continue starting hg or h for help'' @ newline
        else [])"
  have a: "warned (fst (runcatch env args (Inl (LockHeld ETIMEDOUT filename desc locker))))
     = ?pre @ ''abort: '' @ or_else desc filename @ '': timed out waiting for lock held by ''
       @ locker @ newline"
    by (simp add: warned_runcatch_exn Let_def)
  have b: "sublist locker
        (warned (fst (runcatch env args (Inl (LockHeld ETIMEDOUT filename desc locker)))))"
    unfolding a sublist_def
    by (rule exI [of _ "?pre @ ''abort: '' @ or_else desc filename
            @ '': timed out waiting for lock held by ''"], rule exI [of _ newline]) simp
  have c: "snd (runcatch env args (Inl (LockHeld ETIMEDOUT filename desc locker)))
       = Inr (PyInt (- 1))"
    by (simp add: runcatch_exn Let_def)
  have d: "errno \<noteq> ETIMEDOUT \<longrightarrow>
        warned (fst (runcatch env args (Inl (LockHeld errno filename desc locker))))
        \<noteq> warned (fst (runcatch env args (Inl (LockHeld ETIMEDOUT filename desc locker))))"
    by (simp add: warned_runcatch_exn Let_def)
  from a b c d show ?thesis by blast
qed

theorem lock_timeout_surfaced_witness:
  "warned (fst (runcatch \<lparr>debugflag = False, repr = id, ellipsis = id,
        help_unknown = (\<lambda>c. False), sys_version = ''2.6'', hg_version = ''1.7.5'',
        ext_names = []\<rparr> [''commit'']
      (Inl (LockHeld ETIMEDOUT ''/repo/.hg/store/lock'' (Some ''repository /repo'')
             ''host:4242''))))
    = ''abort: repository /repo: timed out waiting for lock held by host:4242'' @ newline
   \<and> (0::int) \<noteq> ETIMEDOUT
   \<and> warned (fst (runcatch \<lparr>debugflag = False, repr = id, ellipsis = id,
        help_unknown = (\<lambda>c. False), sys_version = ''2.6'', hg_version = ''1.7.5'',
        ext_names = []\<rparr> [''commit'']
      (Inl (LockHeld 0 ''/repo/.hg/store/lock'' (Some ''repository /repo'') ''host:4242''))))
    = ''abort: repository /repo: lock held by host:4242'' @ newline"
  using lock_timeout_surfaced [of "\<lparr>debugflag = False, repr = id, ellipsis = id,
        help_unknown = (\<lambda>c. False), sys_version = ''2.6'', hg_version = ''1.7.5'',
        ext_names = []\<rparr>" "[''commit'']"
      "''/repo/.hg/store/lock''" "Some ''repository /repo''" "''host:4242''" 0]
  by (simp add: warned_runcatch_exn Let_def or_else_def ETIMEDOUT_def)

end
